theory Spec2Isabelle
  imports Complex_Main
begin

section \<open>CoolProp property plots: label rounding and isoline range checks\<close>

text \<open>
  A shallow embedding of \<^verbatim>\<open>PropertyPlot._plotRound\<close> and
  \<^verbatim>\<open>PropertyPlot.calc_isolines\<close> of \<^verbatim>\<open>CoolProp/Plots/Plots.py\<close>.

  A finite binary64 number is modelled by a real; a decimal such as \<open>1.01\<close> stands for
  the binary64 number nearest to it. Two things of the run time that the arithmetic of
  the code depends on are parameters of the model:
  \<^item> the rounding of the library: what \<^verbatim>\<open>numpy.log10\<close> returns is the logarithm up
    to a bounded error, and the scaling by a power of ten inside \<^verbatim>\<open>numpy.around\<close>
    is a product or quotient up to a bounded relative error;
  \<^item> the error handling of NumPy and of Python's warnings, which decides whether
    \<^verbatim>\<open>log10(0)\<close> continues with minus infinity or raises.
  Comparisons, \<^verbatim>\<open>rint\<close>, sorting, and the sums of small integers in the code are
  exact in binary64 and exact here.
\<close>

subsection \<open>Exceptions\<close>

datatype error =
  ValueError | OverflowError | TypeError | IndexError | KeyError | FloatingPointError
  | RuntimeWarning

subsection \<open>Floats with infinities\<close>

datatype xfloat = NaN | NegInf | Fin real | PosInf

text \<open>\<^verbatim>\<open>-x\<close>\<close>

fun xf_neg :: "xfloat \<Rightarrow> xfloat" where
  "xf_neg NaN = NaN"
| "xf_neg NegInf = PosInf"
| "xf_neg (Fin x) = Fin (- x)"
| "xf_neg PosInf = NegInf"

text \<open>\<^verbatim>\<open>x * c\<close> for a finite scalar \<open>c\<close>\<close>

fun xf_mul :: "xfloat \<Rightarrow> real \<Rightarrow> xfloat" where
  "xf_mul NaN c = NaN"
| "xf_mul (Fin x) c = Fin (x * c)"
| "xf_mul PosInf c = (if 0 < c then PosInf else if c < 0 then NegInf else NaN)"
| "xf_mul NegInf c = (if 0 < c then NegInf else if c < 0 then PosInf else NaN)"

text \<open>\<^verbatim>\<open>x + c\<close> for a finite scalar \<open>c\<close>\<close>

fun xf_add :: "xfloat \<Rightarrow> real \<Rightarrow> xfloat" where
  "xf_add (Fin x) c = Fin (x + c)"
| "xf_add x c = x"

text \<open>\<^verbatim>\<open>x < y\<close>: every comparison with a not-a-number is false.\<close>

fun xf_less :: "xfloat \<Rightarrow> xfloat \<Rightarrow> bool" where
  "xf_less NaN y = False"
| "xf_less x NaN = False"
| "xf_less NegInf y = (y \<noteq> NegInf)"
| "xf_less (Fin x) (Fin y) = (x < y)"
| "xf_less (Fin x) PosInf = True"
| "xf_less (Fin x) NegInf = False"
| "xf_less PosInf y = False"

text \<open>\<^verbatim>\<open>x > y\<close>\<close>

definition xf_greater :: "xfloat \<Rightarrow> xfloat \<Rightarrow> bool" where
  "xf_greater x y = xf_less y x"

subsection \<open>The run time: error handling and rounding of the library\<close>

text \<open>
  What the error handling in force (\<^verbatim>\<open>numpy.seterr\<close>, \<^verbatim>\<open>numpy.seterrcall\<close>,
  the filters of \<^verbatim>\<open>warnings\<close>) does when an operation signals a division by zero or
  an invalid value: \<open>None\<close> when the operation continues with its IEEE result, the
  exception when it raises (\<^verbatim>\<open>FloatingPointError\<close> under \<^verbatim>\<open>'raise'\<close>,
  \<^verbatim>\<open>RuntimeWarning\<close> under \<^verbatim>\<open>'warn'\<close> with warnings turned into errors). This
  state is set from outside and shared by all code that runs in the thread.
\<close>

record np_state =
  on_divide :: "error option"
  on_invalid :: "error option"

text \<open>NumPy as it starts: both signals warn, and the operation continues.\<close>

definition np_default :: np_state where
  "np_default = \<lparr>on_divide = None, on_invalid = None\<rparr>"

text \<open>
  The rounding errors of the library: \<open>log10_err x\<close> is the error of
  \<^verbatim>\<open>numpy.log10\<close> at \<open>x\<close>, and \<open>scale_err x d\<close> is the relative error of
  the scaling of \<open>x\<close> by the \<open>d\<close>-th power of ten in \<^verbatim>\<open>numpy.around\<close>. Whatever
  these functions are, only their values within the tolerances below are used:
  \<^verbatim>\<open>numpy.log10\<close> is taken to be within \<open>10\<^sup>-\<^sup>1\<^sup>2\<close> of the logarithm (its results lie
  between \<open>-324\<close> and 309, where a few units in the last place are less), and a scaling
  within the relative error \<open>2\<^sup>-\<^sup>5\<^sup>1\<close>, which covers the rounding of the binary64 product
  or quotient and the distance of \<open>x\<close> from the decimal that stands for it. A theorem
  that holds for every such pair of functions holds for the library at hand.
\<close>

record rounding_errors =
  log10_err :: "real \<Rightarrow> real"
  scale_err :: "real \<Rightarrow> int \<Rightarrow> real"

definition log10_tol :: real where
  "log10_tol = 1 / 10 ^ 12"

definition scale_tol :: real where
  "scale_tol = 1 / 2 ^ 51"

text \<open>
  The relative distance a value keeps from a power of ten, or from the square root of
  one, in the concrete runs below: it outweighs the tolerance of the logarithm.
\<close>

definition margin :: real where
  "margin = 1 + 1 / 10 ^ 10"

definition bounded :: "real \<Rightarrow> real \<Rightarrow> real" where
  "bounded tol e = max (- tol) (min tol e)"

text \<open>The binary64 logarithm to base ten of a positive \<open>x\<close>, with error \<open>e\<close>.\<close>

definition lib_log10 :: "real \<Rightarrow> real \<Rightarrow> real" where
  "lib_log10 e x = log 10 x + bounded log10_tol e"

text \<open>The binary64 result of a product or quotient of exact value \<open>y\<close>, with relative error \<open>e\<close>.\<close>

definition rounded :: "real \<Rightarrow> real \<Rightarrow> real" where
  "rounded e y = y * (1 + bounded scale_tol e)"

subsection \<open>The NumPy and Python primitives used\<close>

text \<open>Round to the nearest integer, a tie to the even neighbour (C's \<^verbatim>\<open>rint\<close>).\<close>

definition rint :: "real \<Rightarrow> int" where
  "rint x =
     (let f = \<lfloor>x\<rfloor>; r = x - of_int f
      in if r < 1 / 2 then f
         else if 1 / 2 < r then f + 1
         else if even f then f else f + 1)"

text \<open>\<^verbatim>\<open>numpy.abs\<close> on a finite float\<close>

definition np_abs :: "real \<Rightarrow> real" where
  "np_abs x = \<bar>x\<bar>"

text \<open>
  \<^verbatim>\<open>numpy.log10\<close>, the value: minus infinity at zero, not-a-number below, and the
  library's logarithm above.
\<close>

definition np_log10 :: "rounding_errors \<Rightarrow> real \<Rightarrow> xfloat" where
  "np_log10 fp x =
     (if x < 0 then NaN else if x = 0 then NegInf else Fin (lib_log10 (log10_err fp x) x))"

text \<open>
  \<^verbatim>\<open>numpy.log10\<close>, the exception: NumPy computes the values of the whole array and
  then raises what the error handling says for a signal that was set, invalid below zero
  and division by zero at zero.
\<close>

definition log10_signal :: "np_state \<Rightarrow> real \<Rightarrow> error option" where
  "log10_signal st x = (if x < 0 then on_invalid st else if x = 0 then on_divide st else None)"

fun np_log10_raises :: "np_state \<Rightarrow> real list \<Rightarrow> error option" where
  "np_log10_raises st [] = None"
| "np_log10_raises st (x # xs) =
     (case log10_signal st x of Some e \<Rightarrow> Some e | None \<Rightarrow> np_log10_raises st xs)"

text \<open>\<^verbatim>\<open>numpy.around(x)\<close> with the default \<^verbatim>\<open>decimals=0\<close>\<close>

fun np_around0 :: "xfloat \<Rightarrow> xfloat" where
  "np_around0 (Fin x) = Fin (of_int (rint x))"
| "np_around0 x = x"

text \<open>
  \<^verbatim>\<open>numpy.around(x, decimals=d)\<close> on a finite float: scale by the power of ten (a
  binary64 product, rounded), round to the nearest integer, scale back; a negative \<open>d\<close>
  divides first. The last scaling gives the binary64 number nearest to the decimal, which
  the decimal stands for. For \<open>d = 0\<close> NumPy does not scale at all; the model allows the
  error of a product there too, so what is proved for every error holds without it.
\<close>

definition np_around :: "rounding_errors \<Rightarrow> real \<Rightarrow> int \<Rightarrow> real" where
  "np_around fp x d =
     (if 0 \<le> d then of_int (rint (rounded (scale_err fp x d) (x * 10 ^ nat d))) / 10 ^ nat d
      else of_int (rint (rounded (scale_err fp x d) (x / 10 ^ nat (- d)))) * 10 ^ nat (- d))"

text \<open>\<^verbatim>\<open>numpy.where(c, a, b)\<close>, element by element\<close>

definition np_where :: "bool \<Rightarrow> 'a \<Rightarrow> 'a \<Rightarrow> 'a" where
  "np_where c a b = (if c then a else b)"

text \<open>\<^verbatim>\<open>numpy.sort\<close> and \<^verbatim>\<open>numpy.unique\<close> (sorted, duplicates removed)\<close>

definition np_sort :: "real list \<Rightarrow> real list" where
  "np_sort xs = sort xs"

definition np_unique :: "real list \<Rightarrow> real list" where
  "np_unique xs = sort (remdups xs)"

text \<open>
  Python's \<^verbatim>\<open>int(x)\<close> on a float: truncation towards zero; it raises
  \<^verbatim>\<open>ValueError\<close> on a not-a-number and \<^verbatim>\<open>OverflowError\<close> on an infinity.
\<close>

fun py_int :: "xfloat \<Rightarrow> error + int" where
  "py_int NaN = Inl ValueError"
| "py_int NegInf = Inl OverflowError"
| "py_int PosInf = Inl OverflowError"
| "py_int (Fin x) = Inr (if 0 \<le> x then \<lfloor>x\<rfloor> else \<lceil>x\<rceil>)"

subsection \<open>The plot object\<close>

record isoline =
  i_index :: nat
  iso_value :: real
  line_x :: "real list"
  line_y :: "real list"

record property_plot =
  isolines :: "nat \<rightharpoonup> isoline list"
  x_index :: nat
  y_index :: nat

subsection \<open>\<^verbatim>\<open>_plotRound\<close>\<close>

definition limit :: int where
  "limit = 10"

text \<open>
  Lines 101 to 103 for one element \<open>v\<close> of \<^verbatim>\<open>inVal\<close>: its entry of the
  array \<^verbatim>\<open>val\<close>, the decimal place still as a float. \<^verbatim>\<open>lim\<close> is the
  entry of \<^verbatim>\<open>inVal * 0.0 + 10\<close>.
\<close>

definition plot_val :: "rounding_errors \<Rightarrow> int \<Rightarrow> real \<Rightarrow> xfloat" where
  "plot_val fp digits v =
     (let lim = Fin (v * 0 + of_int limit);
          val = xf_add (xf_add (xf_mul (np_around0 (np_log10 fp (np_abs v))) (- 1))
                  (of_int digits)) 1;
          val = np_where (xf_less val lim) val lim;
          val = np_where (xf_greater val (xf_neg lim)) val (xf_neg lim)
      in val)"

text \<open>The array operations of NumPy work element by element.\<close>

definition plot_vals :: "rounding_errors \<Rightarrow> int \<Rightarrow> real list \<Rightarrow> xfloat list" where
  "plot_vals fp digits inVal = map (plot_val fp digits) inVal"

text \<open>
  Lines 104 to 106: the \<^verbatim>\<open>for\<close> loop that rounds \<^verbatim>\<open>inVal[i]\<close> to
  \<^verbatim>\<open>int(val[i])\<close> decimals. An exception of \<^verbatim>\<open>int\<close> leaves the loop.
\<close>

fun round_each :: "rounding_errors \<Rightarrow> real list \<Rightarrow> xfloat list \<Rightarrow> error + real list" where
  "round_each fp [] val = Inr []"
| "round_each fp (v # vs) [] = Inl IndexError"
| "round_each fp (v # vs) (d # ds) =
     (case py_int d of
        Inl e \<Rightarrow> Inl e
      | Inr k \<Rightarrow>
          (case round_each fp vs ds of
             Inl e \<Rightarrow> Inl e
           | Inr out \<Rightarrow> Inr (np_around fp v k # out)))"

text \<open>
  The \<^verbatim>\<open>while\<close> loop of lines 99 to 107, in the error handling \<open>st\<close>. Line 101
  raises what \<^verbatim>\<open>numpy.log10\<close> raises on \<^verbatim>\<open>numpy.abs(inVal)\<close>. The result
  carries the final value of \<^verbatim>\<open>digits\<close> next to \<^verbatim>\<open>output\<close>, so that the number
  of passes can be read off: the loop body has run \<open>digits + 1\<close> times.
\<close>

function plotRound_loop ::
  "np_state \<Rightarrow> rounding_errors \<Rightarrow> real list \<Rightarrow> real list \<Rightarrow> int \<Rightarrow> error + int \<times> real list" where
  "plotRound_loop st fp inVal output digits =
     (if length inVal > length output \<and> digits < limit then
        (case np_log10_raises st (map np_abs inVal) of
           Some e \<Rightarrow> Inl e
         | None \<Rightarrow>
             (case round_each fp inVal (plot_vals fp (digits + 1) inVal) of
                Inl e \<Rightarrow> Inl e
              | Inr out \<Rightarrow> plotRound_loop st fp inVal (np_unique out) (digits + 1)))
      else Inr (digits, output))"
  by pat_completeness auto
termination
  by (relation "measure (\<lambda>(st, fp, inVal, output, digits). nat (limit - digits))") auto

text \<open>Lines 91 to 95 and the loop: the run of \<^verbatim>\<open>_plotRound\<close> with its final \<^verbatim>\<open>digits\<close>.\<close>

definition plotRound_run ::
  "np_state \<Rightarrow> rounding_errors \<Rightarrow> real list \<Rightarrow> error + int \<times> real list" where
  "plotRound_run st fp values =
     (let inVal = np_unique (np_sort values);
          output = map (\<lambda>v. v * 0) (tl inVal);
          digits = - 1
      in plotRound_loop st fp inVal output digits)"

text \<open>
  \<^verbatim>\<open>_plotRound(self, values)\<close> called in the error handling \<open>st\<close>: the method
  returns \<^verbatim>\<open>output\<close> alone.
\<close>

definition plotRound_in ::
  "np_state \<Rightarrow> rounding_errors \<Rightarrow> property_plot \<Rightarrow> real list \<Rightarrow> error + real list" where
  "plotRound_in st fp self values =
     (case plotRound_run st fp values of Inl e \<Rightarrow> Inl e | Inr (digits, output) \<Rightarrow> Inr output)"

text \<open>\<^verbatim>\<open>_plotRound(self, values)\<close> in NumPy's default error handling.\<close>

definition plotRound :: "rounding_errors \<Rightarrow> property_plot \<Rightarrow> real list \<Rightarrow> error + real list" where
  "plotRound fp self values = plotRound_in np_default fp self values"

text \<open>
  The decimal place of lines 101 to 103 in closed form, and one pass of the loop body
  with it; \<open>plot_val_closed\<close> and \<open>round_each_closed\<close> below prove them equal to
  what the code computes.
\<close>

definition decimal_place :: "rounding_errors \<Rightarrow> int \<Rightarrow> real \<Rightarrow> int" where
  "decimal_place fp digits v =
     (if v = 0 then 10
      else max (- 10) (min 10 (- rint (lib_log10 (log10_err fp \<bar>v\<bar>) \<bar>v\<bar>) + digits + 1)))"

definition round_pass :: "rounding_errors \<Rightarrow> int \<Rightarrow> real list \<Rightarrow> real list" where
  "round_pass fp digits inVal =
     np_unique (map (\<lambda>v. np_around fp v (decimal_place fp digits v)) inVal)"

text \<open>
  The decimal place as the specification words it, with the floor of the logarithm that
  \<^verbatim>\<open>numpy.log10\<close> returns: \<^verbatim>\<open>-floor(log10(|value|)) + digits + 1\<close>, clamped to
  plus and minus ten.
\<close>

definition spec_decimal_place :: "rounding_errors \<Rightarrow> int \<Rightarrow> real \<Rightarrow> int" where
  "spec_decimal_place fp digits v =
     max (- 10) (min 10 (- \<lfloor>lib_log10 (log10_err fp \<bar>v\<bar>) \<bar>v\<bar>\<rfloor> + digits + 1))"

subsection \<open>\<^verbatim>\<open>calc_isolines\<close>\<close>

text \<open>The \<^verbatim>\<open>iso_type\<close> argument: the string \<^verbatim>\<open>'all'\<close> or a parameter index.\<close>

datatype iso_type = All | Index nat

text \<open>
  What \<^verbatim>\<open>calc_isolines\<close> calls outside this file (\<^verbatim>\<open>BasePlot\<close> and
  \<^verbatim>\<open>IsoLine\<close> of \<^verbatim>\<open>CoolProp.Plots.Common\<close>) is a parameter:
  the table \<^verbatim>\<open>IsoLine.XY_SWITCH\<close> in iteration order, the constant
  \<^verbatim>\<open>CoolProp.iT\<close>, \<^verbatim>\<open>_get_axis_limits\<close>, \<^verbatim>\<open>generate_ranges\<close>,
  the dictionary \<^verbatim>\<open>self._system\<close> from a parameter index to the unit conversion
  \<^verbatim>\<open>to_SI\<close> of its dimension, and the construction of a line
  (\<^verbatim>\<open>IsoLine(...)\<close>, \<^verbatim>\<open>calc_range\<close>, \<^verbatim>\<open>sanitize_data\<close>).
  The functions are taken to return normally. The error handling and the rounding of
  NumPy that the call runs in are part of this environment.
\<close>

record collaborators =
  XY_SWITCH :: "(nat \<times> (nat \<rightharpoonup> nat)) list"
  iT :: nat
  get_axis_limits :: "property_plot \<Rightarrow> (nat \<times> nat) option \<Rightarrow> real \<times> real \<times> real \<times> real"
  generate_ranges :: "nat \<Rightarrow> real \<Rightarrow> real \<Rightarrow> int option \<Rightarrow> real list"
  system :: "nat \<rightharpoonup> (real \<Rightarrow> real)"
  make_line :: "property_plot \<Rightarrow> nat \<Rightarrow> real \<Rightarrow> real list \<Rightarrow> real list \<Rightarrow> isoline"
  np_error_state :: np_state
  np_rounding :: rounding_errors

text \<open>
  Lines 117 to 124: the two checks of the range arguments. \<^verbatim>\<open>iso_range\<close> is
  \<^verbatim>\<open>None\<close> or a collection, \<^verbatim>\<open>num\<close> is \<^verbatim>\<open>None\<close> or an integer.
\<close>

definition range_checks :: "real list option \<Rightarrow> int option \<Rightarrow> error + real list" where
  "range_checks iso_range num =
     (case iso_range of
        None \<Rightarrow> Inl ValueError
      | Some r \<Rightarrow>
          if length r = 1 \<and> num \<noteq> Some 1 then Inl ValueError
          else if length r = 2 \<and> num = None then Inl ValueError
          else Inr r)"

text \<open>
  Lines 150 to 153: the loop that appends one line per index \<open>i\<close> to \<^verbatim>\<open>lines\<close>;
  \<open>to_SI\<close> is the conversion of \<^verbatim>\<open>dim\<close>.
  \<^verbatim>\<open>iso_range[i]\<close> raises \<^verbatim>\<open>IndexError\<close> past the end; the lines appended
  so far stay in the list.
\<close>

fun append_lines ::
  "collaborators \<Rightarrow> property_plot \<Rightarrow> nat \<Rightarrow> (real \<Rightarrow> real) \<Rightarrow> real list \<Rightarrow> real list \<Rightarrow>
   real list \<Rightarrow> nat list \<Rightarrow> isoline list \<Rightarrow> error option \<times> isoline list" where
  "append_lines env self k to_SI iso_range ixrange iyrange [] lines = (None, lines)"
| "append_lines env self k to_SI iso_range ixrange iyrange (i # is) lines =
     (if i < length iso_range then
        append_lines env self k to_SI iso_range ixrange iyrange is
          (lines @ [make_line env self k (to_SI (iso_range ! i)) ixrange iyrange])
      else (Some IndexError, lines))"

text \<open>
  Lines 134 to 155: the work for one parameter index. \<^verbatim>\<open>self._system[iso_type]\<close>
  raises \<^verbatim>\<open>KeyError\<close> for an index the unit system does not know, before any line
  is built. The list of lines is the object
  stored in \<^verbatim>\<open>self.isolines\<close> when the key is there, so what the loop appended
  before an exception is already in the plot; a fresh list is lost.
\<close>

definition calc_body ::
  "collaborators \<Rightarrow> property_plot \<Rightarrow> nat \<Rightarrow> real list \<Rightarrow> int option \<Rightarrow> bool \<Rightarrow> int \<Rightarrow>
   error option \<times> property_plot" where
  "calc_body env self k iso_range num rounding points =
     (let iso_range = np_sort (np_unique iso_range);
          iso_range = (if length iso_range = 2
                       then generate_ranges env k (iso_range ! 0) (iso_range ! 1) num
                       else iso_range)
      in case (if rounding
               then plotRound_in (np_error_state env) (np_rounding env) self iso_range
               else Inr iso_range) of
           Inl e \<Rightarrow> (Some e, self)
         | Inr iso_range \<Rightarrow>
             (case get_axis_limits env self None of
                (x0, x1, y0, y1) \<Rightarrow>
                  (let ixrange = generate_ranges env (x_index self) x0 x1 (Some points);
                       iyrange = generate_ranges env (y_index self) y0 y1 (Some points)
                   in case system env k of
                        None \<Rightarrow> (Some KeyError, self)
                      | Some to_SI \<Rightarrow>
                          (let lines = (case isolines self k of None \<Rightarrow> [] | Some ls \<Rightarrow> ls)
                           in case num of
                                None \<Rightarrow> (Some TypeError, self)
                              | Some n \<Rightarrow>
                                  (case append_lines env self k to_SI iso_range ixrange iyrange
                                          [0..<nat n] lines of
                                     (Some e, lines') \<Rightarrow>
                                       (Some e,
                                        if isolines self k = None then self
                                        else self\<lparr>isolines := (isolines self)(k \<mapsto> lines')\<rparr>)
                                   | (None, lines') \<Rightarrow>
                                       (None,
                                        self\<lparr>isolines := (isolines self)(k \<mapsto> lines')\<rparr>))))))"

text \<open>
  \<^verbatim>\<open>calc_isolines\<close> called with a parameter index, as the branch for
  \<^verbatim>\<open>'all'\<close> calls it: the keys of \<^verbatim>\<open>IsoLine.XY_SWITCH\<close> are indices, so
  the call does not reach that branch again.
\<close>

definition calc_isolines_index ::
  "collaborators \<Rightarrow> property_plot \<Rightarrow> nat \<Rightarrow> real list option \<Rightarrow> int option \<Rightarrow> bool \<Rightarrow> int \<Rightarrow>
   error option \<times> property_plot" where
  "calc_isolines_index env self k iso_range num rounding points =
     (case range_checks iso_range num of
        Inl e \<Rightarrow> (Some e, self)
      | Inr r \<Rightarrow> calc_body env self k r num rounding points)"

text \<open>Lines 127 to 132: the loop over \<^verbatim>\<open>IsoLine.XY_SWITCH\<close>; an exception ends it.\<close>

fun calc_all ::
  "collaborators \<Rightarrow> property_plot \<Rightarrow> (nat \<times> (nat \<rightharpoonup> nat)) list \<Rightarrow> int option \<Rightarrow> bool \<Rightarrow> int \<Rightarrow>
   error option \<times> property_plot" where
  "calc_all env self [] num rounding points = (None, self)"
| "calc_all env self ((i_type, table) # rest) num rounding points =
     (if table (y_index self * 10 + x_index self) \<noteq> None then
        (case get_axis_limits env self (Some (i_type, iT env)) of
           (l0, l1, l2, l3) \<Rightarrow>
             (case calc_isolines_index env self i_type (Some [l0, l1]) num rounding points of
                (Some e, self') \<Rightarrow> (Some e, self')
              | (None, self') \<Rightarrow> calc_all env self' rest num rounding points))
      else calc_all env self rest num rounding points)"

text \<open>
  \<^verbatim>\<open>calc_isolines(self, iso_type, iso_range, num, rounding, points)\<close>: the
  exception raised, if any, and the plot as the call leaves it.
\<close>

definition calc_isolines ::
  "collaborators \<Rightarrow> property_plot \<Rightarrow> iso_type \<Rightarrow> real list option \<Rightarrow> int option \<Rightarrow> bool \<Rightarrow> int \<Rightarrow>
   error option \<times> property_plot" where
  "calc_isolines env self iso_type iso_range num rounding points =
     (case range_checks iso_range num of
        Inl e \<Rightarrow> (Some e, self)
      | Inr r \<Rightarrow>
          (case iso_type of
             All \<Rightarrow> calc_all env self (XY_SWITCH env) num rounding points
           | Index k \<Rightarrow> calc_body env self k r num rounding points))"

text \<open>A plot with no isolines yet, for concrete runs.\<close>

definition plot0 :: property_plot where
  "plot0 = \<lparr>isolines = Map.empty, x_index = 0, y_index = 0\<rparr>"

text \<open>The library with no rounding error at all, for concrete runs.\<close>

definition exact :: rounding_errors where
  "exact = \<lparr>log10_err = (\<lambda>x. 0), scale_err = (\<lambda>x d. 0)\<rparr>"

section \<open>Rounding to the nearest integer\<close>

lemma rint_nearest:
  assumes "of_int k - 1 / 2 < y" and "y < of_int k + 1 / 2"
  shows "rint y = k"
proof -
  have "\<lfloor>y\<rfloor> = k \<or> \<lfloor>y\<rfloor> = k - 1"
    using assms by linarith
  then show ?thesis
  proof
    assume "\<lfloor>y\<rfloor> = k"
    then show ?thesis using assms by (simp add: rint_def Let_def)
  next
    assume "\<lfloor>y\<rfloor> = k - 1"
    then show ?thesis using assms by (simp add: rint_def Let_def)
  qed
qed

lemma rint_of_int [simp]: "rint (of_int k) = k"
  by (simp add: rint_def)

lemma rint_zero [simp]: "rint 0 = 0"
  using rint_of_int [of 0] by simp

lemma rint_one [simp]: "rint 1 = 1"
  using rint_of_int [of 1] by simp

lemma rint_numeral [simp]: "rint (numeral n) = numeral n"
  using rint_of_int [of "numeral n"] by simp

section \<open>The rounding errors of the library stay within their tolerances\<close>

lemma bounded_abs: "0 \<le> tol \<Longrightarrow> \<bar>bounded tol e\<bar> \<le> tol"
  by (simp add: bounded_def)

lemma log10_err_bound: "\<bar>lib_log10 e x - log 10 x\<bar> \<le> log10_tol"
  using bounded_abs [of log10_tol e] by (simp add: lib_log10_def log10_tol_def)

lemma rounded_bound: "\<bar>rounded e y - y\<bar> \<le> \<bar>y\<bar> * scale_tol"
proof -
  have "rounded e y - y = y * bounded scale_tol e"
    by (simp add: rounded_def algebra_simps)
  moreover have "\<bar>bounded scale_tol e\<bar> \<le> scale_tol"
    by (rule bounded_abs) (simp add: scale_tol_def)
  ultimately show ?thesis
    by (simp add: abs_mult mult_left_mono)
qed

text \<open>
  A value is rounded to \<open>n\<close> whatever the error of the scaling, once its distance from
  \<open>n\<close> and the error together stay below one half.
\<close>

lemma rint_rounded:
  assumes "\<bar>y - of_int n\<bar> + \<bar>y\<bar> * scale_tol < 1 / 2"
  shows "rint (rounded e y) = n"
proof (rule rint_nearest)
  from rounded_bound [of e y] assms show "of_int n - 1 / 2 < rounded e y" by linarith
  from rounded_bound [of e y] assms show "rounded e y < of_int n + 1 / 2" by linarith
qed

section \<open>The decimal logarithm\<close>

lemma log10_powi: "log 10 (10 powi n) = of_int n"
proof (cases "0 \<le> n")
  case True
  then show ?thesis by (simp add: power_int_def)
next
  case False
  then have "10 powi n = inverse ((10::real) ^ nat (- n))"
    by (simp add: power_int_def power_one_over inverse_eq_divide)
  then show ?thesis using False by (simp add: log_inverse)
qed

text \<open>The relative margin is worth more than twice the tolerance of the logarithm.\<close>

lemma margin_gt_1: "1 < margin"
  by (simp add: margin_def)

lemma log10_margin: "2 * log10_tol < log 10 margin"
proof -
  let ?t = "1 / 10 ^ 10 :: real"
  have "?t - ?t\<^sup>2 \<le> ln (1 + ?t)"
    by (rule ln_one_plus_pos_lower_bound) simp_all
  then have low: "?t - ?t\<^sup>2 \<le> ln margin"
    by (simp only: margin_def)
  have "20 * log10_tol < ?t - ?t\<^sup>2"
    by (simp add: log10_tol_def power2_eq_square)
  with low have a: "20 * log10_tol < ln margin" by linarith
  have ln10: "0 < ln (10 :: real)" "ln (10 :: real) < 10"
    by simp_all
  have tol: "0 < log10_tol" by (simp add: log10_tol_def)
  from ln10(2) tol have "2 * log10_tol * ln 10 < 2 * log10_tol * 10"
    by (intro mult_strict_left_mono) simp_all
  with a have "2 * log10_tol * ln 10 < ln margin" by linarith
  with ln10(1) have "2 * log10_tol < ln margin / ln 10"
    by (simp add: pos_less_divide_eq)
  then show ?thesis by (simp only: log_def)
qed

lemma log10_above:
  assumes "0 < x" and "10 powi k * margin \<le> x"
  shows "of_int k + 2 * log10_tol < log 10 x"
proof -
  have m: "0 < margin" using margin_gt_1 by linarith
  then have pos: "0 < 10 powi k * margin" by simp
  have ten: "1 < (10 :: real)" by simp
  have "log 10 (10 powi k * margin) \<le> log 10 x"
    using assms(2) by (simp only: log_le_cancel_iff [OF ten pos assms(1)])
  moreover have "log 10 (10 powi k * margin) = of_int k + log 10 margin"
    using m by (simp add: log_mult log10_powi)
  ultimately show ?thesis using log10_margin by linarith
qed

lemma log10_below:
  assumes "0 < x" and "x * margin \<le> 10 powi k"
  shows "log 10 x < of_int k - 2 * log10_tol"
proof -
  have m: "0 < margin" using margin_gt_1 by linarith
  with assms(1) have pos: "0 < x * margin" by simp
  have ten: "1 < (10 :: real)" by simp
  have p: "0 < (10 :: real) powi k" by simp
  have "log 10 (x * margin) \<le> log 10 (10 powi k)"
    using assms(2) by (simp only: log_le_cancel_iff [OF ten pos p])
  moreover have "log 10 (x * margin) = log 10 x + log 10 margin"
    using assms(1) m by (simp add: log_mult)
  ultimately show ?thesis using log10_margin by (simp add: log10_powi)
qed

lemma rint_lib_log10_between:
  assumes "of_int k - 1 / 2 + log10_tol < log 10 x" and "log 10 x < of_int k + 1 / 2 - log10_tol"
  shows "rint (lib_log10 e x) = k"
proof (rule rint_nearest)
  from log10_err_bound [of e x] assms show "of_int k - 1 / 2 < lib_log10 e x" by linarith
  from log10_err_bound [of e x] assms show "lib_log10 e x < of_int k + 1 / 2" by linarith
qed

lemma log10_between_squares:
  assumes "0 < x"
    and "10 powi (2 * k - 1) * margin \<le> x\<^sup>2"
    and "x\<^sup>2 * margin \<le> 10 powi (2 * k + 1)"
  shows "of_int k - 1 / 2 + log10_tol < log 10 x \<and> log 10 x < of_int k + 1 / 2 - log10_tol"
proof -
  have sq: "log 10 (x\<^sup>2) = 2 * log 10 x"
    using assms(1) by (simp add: log_nat_power)
  have pos: "0 < x\<^sup>2" using assms(1) by simp
  from log10_above [OF pos assms(2)] have "of_int (2 * k - 1) + 2 * log10_tol < 2 * log 10 x"
    by (simp only: sq)
  moreover from log10_below [OF pos assms(3)] have "2 * log 10 x < of_int (2 * k + 1) - 2 * log10_tol"
    by (simp only: sq)
  ultimately show ?thesis by simp
qed

lemma rint_lib_log10:
  assumes "0 < x"
    and "10 powi (2 * k - 1) * margin \<le> x\<^sup>2"
    and "x\<^sup>2 * margin \<le> 10 powi (2 * k + 1)"
  shows "rint (lib_log10 e x) = k"
  using log10_between_squares [OF assms] by (intro rint_lib_log10_between) simp_all

lemma floor_lib_log10:
  assumes "0 < x"
    and "10 powi k * margin \<le> x"
    and "x * margin \<le> 10 powi (k + 1)"
  shows "\<lfloor>lib_log10 e x\<rfloor> = k"
proof -
  have tol: "0 < log10_tol" by (simp add: log10_tol_def)
  have k1: "of_int (k + 1) = of_int k + (1 :: real)" by simp
  from log10_above [OF assms(1,2)] log10_err_bound [of e x] tol
  have lo: "of_int k \<le> lib_log10 e x" by linarith
  from log10_below [OF assms(1,3)] log10_err_bound [of e x] tol k1
  have hi: "lib_log10 e x < of_int k + 1" by linarith
  from lo hi show ?thesis by (simp add: floor_eq_iff)
qed

section \<open>\<^verbatim>\<open>numpy.around\<close> away from the ties\<close>

lemma np_around_pos:
  assumes "0 \<le> d" and "\<bar>x * 10 ^ nat d - of_int n\<bar> + \<bar>x * 10 ^ nat d\<bar> * scale_tol < 1 / 2"
  shows "np_around fp x d = of_int n / 10 ^ nat d"
  using assms(1) rint_rounded [OF assms(2)] by (simp add: np_around_def)

lemma np_around_neg:
  assumes "d < 0"
    and "\<bar>x / 10 ^ nat (- d) - of_int n\<bar> + \<bar>x / 10 ^ nat (- d)\<bar> * scale_tol < 1 / 2"
  shows "np_around fp x d = of_int n * 10 ^ nat (- d)"
  using assms(1) rint_rounded [OF assms(2)] by (simp add: np_around_def)

section \<open>The decimal place and one pass, in closed form\<close>

declare plotRound_loop.simps [simp del]

lemma plot_val_closed: "plot_val fp d v = Fin (of_int (decimal_place fp d v))"
proof (cases "v = 0")
  case True
  then show ?thesis
    by (simp add: plot_val_def decimal_place_def np_log10_def np_abs_def np_where_def
        xf_greater_def limit_def Let_def)
next
  case False
  then show ?thesis
    by (simp add: plot_val_def decimal_place_def np_log10_def np_abs_def np_where_def
        xf_greater_def limit_def Let_def max_def min_def)
qed

lemma py_int_of_int: "py_int (Fin (of_int k)) = Inr k"
  by simp

lemma py_int_plot_val: "py_int (plot_val fp d v) = Inr (decimal_place fp d v)"
  by (simp only: plot_val_closed py_int_of_int)

lemma decimal_place_bounds: "- 10 \<le> decimal_place fp d v \<and> decimal_place fp d v \<le> 10"
  by (simp add: decimal_place_def)

lemma round_each_closed:
  "round_each fp vs (plot_vals fp d vs) = Inr (map (\<lambda>v. np_around fp v (decimal_place fp d v)) vs)"
  by (induction vs) (simp_all add: plot_vals_def py_int_plot_val del: py_int.simps)

lemma length_np_unique_le: "length (np_unique xs) \<le> length xs"
  by (simp add: np_unique_def length_remdups_leq)

lemma length_np_unique_eq: "length (np_unique xs) = length xs \<longleftrightarrow> distinct xs"
  by (simp add: np_unique_def length_remdups_eq remdups_id_iff_distinct)

lemma sorted_np_unique: "sorted (np_unique xs)"
  by (simp add: np_unique_def)

lemma distinct_np_unique: "distinct (np_unique xs)"
  by (simp add: np_unique_def)

lemma set_np_unique: "set (np_unique xs) = set xs"
  by (simp add: np_unique_def)

lemma np_unique_fixed: "sorted xs \<Longrightarrow> distinct xs \<Longrightarrow> np_unique xs = xs"
  by (simp add: np_unique_def sorted_sort_id)

lemma length_round_pass_le: "length (round_pass fp d inVal) \<le> length inVal"
  using length_np_unique_le [of "map (\<lambda>v. np_around fp v (decimal_place fp d v)) inVal"]
  by (simp add: round_pass_def)

section \<open>What the logarithm raises\<close>

lemma log10_raises_abs:
  "np_log10_raises st (map np_abs xs) = (if 0 \<in> set xs then on_divide st else None)"
  by (induction xs) (auto simp add: log10_signal_def np_abs_def split: option.splits)

lemma log10_raises_default: "np_log10_raises np_default (map np_abs xs) = None"
  by (simp add: log10_raises_abs np_default_def)

section \<open>The loop\<close>

lemma loop_unfold:
  assumes "np_log10_raises st (map np_abs inVal) = None"
  shows "plotRound_loop st fp inVal output digits =
     (if length inVal > length output \<and> digits < 10
      then plotRound_loop st fp inVal (round_pass fp (digits + 1) inVal) (digits + 1)
      else Inr (digits, output))"
  by (subst plotRound_loop.simps) (simp add: assms round_each_closed round_pass_def limit_def)

lemma loop_stops:
  assumes "\<not> (length inVal > length outp \<and> digits < limit)"
  shows "plotRound_loop st fp inVal outp digits = Inr (digits, outp)"
  using assms by (subst plotRound_loop.simps) auto

lemma loop_raises:
  assumes "np_log10_raises st (map np_abs inVal) = Some e"
    and "length inVal > length outp \<and> digits < limit"
  shows "plotRound_loop st fp inVal outp digits = Inl e"
  using assms by (subst plotRound_loop.simps) auto

lemma loop_step:
  assumes "np_log10_raises st (map np_abs inVal) = None"
    and "length inVal > length outp \<and> digits < limit"
  shows "plotRound_loop st fp inVal outp digits =
    plotRound_loop st fp inVal (round_pass fp (digits + 1) inVal) (digits + 1)"
  using assms by (subst plotRound_loop.simps) (auto simp add: round_each_closed round_pass_def)

lemma loop_same_signals:
  assumes "np_log10_raises st1 (map np_abs inVal) = np_log10_raises st2 (map np_abs inVal)"
  shows "plotRound_loop st1 fp inVal outp digits = plotRound_loop st2 fp inVal outp digits"
  using assms
proof (induction st1 fp inVal outp digits rule: plotRound_loop.induct)
  case (1 st1 fp inVal outp digits)
  note same = "1.prems"
  show ?case
  proof (cases "length inVal > length outp \<and> digits < limit")
    case False
    from loop_stops [OF False, of st1 fp] loop_stops [OF False, of st2 fp]
    show ?thesis by simp
  next
    case True
    show ?thesis
    proof (cases "np_log10_raises st1 (map np_abs inVal)")
      case (Some e)
      with same have "np_log10_raises st2 (map np_abs inVal) = Some e" by simp
      from loop_raises [OF Some True, of fp] loop_raises [OF this True, of fp]
      show ?thesis by simp
    next
      case None
      with same have None2: "np_log10_raises st2 (map np_abs inVal) = None" by simp
      have re: "round_each fp inVal (plot_vals fp (digits + 1) inVal) =
          Inr (map (\<lambda>v. np_around fp v (decimal_place fp (digits + 1) v)) inVal)"
        by (rule round_each_closed)
      from "1.IH" [OF True None re same]
      have "plotRound_loop st1 fp inVal (round_pass fp (digits + 1) inVal) (digits + 1) =
          plotRound_loop st2 fp inVal (round_pass fp (digits + 1) inVal) (digits + 1)"
        by (simp only: round_pass_def)
      with loop_step [OF None True, of fp] loop_step [OF None2 True, of fp]
      show ?thesis by simp
    qed
  qed
qed

lemma loop_result:
  assumes quiet: "np_log10_raises st (map np_abs inVal) = None"
  shows "\<exists>d out. plotRound_loop st fp inVal outp digits = Inr (d, out) \<and>
     (if length inVal > length outp \<and> digits < 10
      then digits < d \<and> d \<le> 10 \<and> out = round_pass fp d inVal
      else d = digits \<and> out = outp) \<and>
     (\<forall>d'. digits < d' \<and> d' < d \<longrightarrow> length (round_pass fp d' inVal) < length inVal) \<and>
     (length out < length inVal \<longrightarrow> 10 \<le> d)"
  using quiet
proof (induction st fp inVal outp digits rule: plotRound_loop.induct)
  case (1 st fp inVal outp digits)
  note quiet = "1.prems"
  show ?case
  proof (cases "length inVal > length outp \<and> digits < 10")
    case False
    then show ?thesis
      by (subst loop_unfold [OF quiet]) auto
  next
    case True
    let ?out1 = "round_pass fp (digits + 1) inVal"
    have re: "round_each fp inVal (plot_vals fp (digits + 1) inVal) =
        Inr (map (\<lambda>v. np_around fp v (decimal_place fp (digits + 1) v)) inVal)"
      by (rule round_each_closed)
    from True have guard: "length outp < length inVal \<and> digits < limit"
      by (simp add: limit_def)
    from "1.IH" [OF guard quiet re quiet]
    obtain d out where run: "plotRound_loop st fp inVal ?out1 (digits + 1) = Inr (d, out)"
      and shape: "if length inVal > length ?out1 \<and> digits + 1 < 10
          then digits + 1 < d \<and> d \<le> 10 \<and> out = round_pass fp d inVal
          else d = digits + 1 \<and> out = ?out1"
      and retried: "\<forall>d'. digits + 1 < d' \<and> d' < d \<longrightarrow>
          length (round_pass fp d' inVal) < length inVal"
      and stop: "length out < length inVal \<longrightarrow> 10 \<le> d"
      unfolding round_pass_def by blast
    have eq: "plotRound_loop st fp inVal outp digits = Inr (d, out)"
      using True run by (subst loop_unfold [OF quiet]) simp
    have bounds: "digits < d \<and> d \<le> 10 \<and> out = round_pass fp d inVal"
      using shape True by (auto split: if_splits)
    have "length (round_pass fp d' inVal) < length inVal" if "digits < d'" "d' < d" for d'
    proof (cases "d' = digits + 1")
      case False
      with that retried show ?thesis by simp
    next
      case True
      with that shape show ?thesis by (auto split: if_splits)
    qed
    with eq bounds stop True show ?thesis by auto
  qed
qed

section \<open>The run of the precision search\<close>

lemma set_inVal: "set (np_unique (np_sort values)) = set values"
  by (simp add: np_unique_def np_sort_def)

lemma inVal_Nil_iff: "np_unique (np_sort values) = [] \<longleftrightarrow> values = []"
  using set_inVal [of "values"] by (metis set_empty)

lemma inVal_fixed: "sorted xs \<Longrightarrow> distinct xs \<Longrightarrow> np_unique (np_sort xs) = xs"
  by (simp add: np_sort_def sorted_sort_id np_unique_fixed)

lemma run_empty: "plotRound_run st fp [] = Inr (- 1, [])"
proof -
  have "plotRound_loop st fp [] [] (- 1) = Inr (- 1, [])"
    by (subst plotRound_loop.simps) simp
  then show ?thesis
    by (simp add: plotRound_run_def np_unique_def np_sort_def)
qed

lemma run_signals:
  "np_log10_raises st (map np_abs (np_unique (np_sort values))) =
     (if 0 \<in> set values then on_divide st else None)"
  by (simp add: log10_raises_abs set_inVal)

lemma run_raises:
  assumes "0 \<in> set values" and "on_divide st = Some e"
  shows "plotRound_run st fp values = Inl e"
proof -
  let ?inVal = "np_unique (np_sort values)"
  from assms(1) have "?inVal \<noteq> []"
    by (auto simp add: inVal_Nil_iff)
  then have "length ?inVal > length (map (\<lambda>v. v * 0) (tl ?inVal))"
    by (cases ?inVal) simp_all
  moreover have "np_log10_raises st (map np_abs ?inVal) = Some e"
    using assms by (simp add: run_signals)
  ultimately show ?thesis
    unfolding plotRound_run_def Let_def by (intro loop_raises) (simp_all add: limit_def)
qed

lemma run_same_signals:
  assumes "0 \<notin> set values \<or> on_divide st1 = on_divide st2"
  shows "plotRound_run st1 fp values = plotRound_run st2 fp values"
  unfolding plotRound_run_def Let_def
  using assms by (intro loop_same_signals) (auto simp add: run_signals)

lemma run_result:
  assumes "values \<noteq> []"
  shows "\<exists>d. plotRound_run np_default fp values =
       Inr (d, round_pass fp d (np_unique (np_sort values))) \<and>
     0 \<le> d \<and> d \<le> 10 \<and>
     (\<forall>d'. 0 \<le> d' \<and> d' < d \<longrightarrow>
        length (round_pass fp d' (np_unique (np_sort values))) < length (np_unique (np_sort values))) \<and>
     (length (round_pass fp d (np_unique (np_sort values))) < length (np_unique (np_sort values))
        \<longrightarrow> d = 10)"
proof -
  let ?inVal = "np_unique (np_sort values)"
  let ?out0 = "map (\<lambda>v. v * 0) (tl ?inVal)"
  have ne: "?inVal \<noteq> []"
    using assms by (simp add: inVal_Nil_iff)
  then have guard: "length ?inVal > length ?out0 \<and> (- 1 :: int) < 10"
    by (cases ?inVal) simp_all
  from loop_result [where st = np_default and fp = fp and inVal = ?inVal and outp = ?out0
      and digits = "- 1", OF log10_raises_default] guard
  obtain d out where "plotRound_loop np_default fp ?inVal ?out0 (- 1) = Inr (d, out)"
    and "- 1 < d" "d \<le> 10" "out = round_pass fp d ?inVal"
    and "\<forall>d'. - 1 < d' \<and> d' < d \<longrightarrow> length (round_pass fp d' ?inVal) < length ?inVal"
    and "length out < length ?inVal \<longrightarrow> 10 \<le> d"
    by auto
  then show ?thesis
    unfolding plotRound_run_def Let_def by (intro exI [of _ d]) simp
qed

lemma plotRound_of_run:
  "plotRound_run np_default fp values = Inr (d, out) \<Longrightarrow> plotRound fp self values = Inr out"
  by (simp add: plotRound_def plotRound_in_def)

lemma plotRound_empty: "plotRound fp self [] = Inr []"
  by (simp add: plotRound_def plotRound_in_def run_empty)

lemma run_first_pass:
  assumes "values \<noteq> []"
    and "length (round_pass fp 0 (np_unique (np_sort values))) = length (np_unique (np_sort values))"
  shows "plotRound_run np_default fp values = Inr (0, round_pass fp 0 (np_unique (np_sort values)))"
proof -
  let ?inVal = "np_unique (np_sort values)"
  from run_result [OF assms(1), of fp] obtain d
    where run: "plotRound_run np_default fp values = Inr (d, round_pass fp d ?inVal)"
      and "0 \<le> d"
      and retried: "\<forall>d'. 0 \<le> d' \<and> d' < d \<longrightarrow> length (round_pass fp d' ?inVal) < length ?inVal"
    by blast
  have "d = 0"
  proof (rule ccontr)
    assume "d \<noteq> 0"
    with \<open>0 \<le> d\<close> have "0 < d" by simp
    with retried have "length (round_pass fp 0 ?inVal) < length ?inVal" by simp
    with assms(2) show False by simp
  qed
  with run show ?thesis by simp
qed

lemma pass_as_code:
  "\<exists>r. round_each fp inVal (plot_vals fp d inVal) = Inr r \<and> np_unique r = round_pass fp d inVal \<and>
     (distinct r \<longleftrightarrow> length (round_pass fp d inVal) = length inVal)"
  by (simp add: round_each_closed round_pass_def length_np_unique_eq [symmetric])

lemma pass_distinct_length:
  assumes "round_each fp inVal (plot_vals fp d inVal) = Inr r" and "distinct r"
  shows "length (round_pass fp d inVal) = length inVal"
  using assms pass_as_code [of fp inVal d] by auto

lemma unclamped_zero:
  "xf_add (xf_add (xf_mul (np_around0 (np_log10 fp (np_abs 0))) (- 1)) (of_int digits)) 1 = PosInf"
  by (simp add: np_log10_def np_abs_def)

lemma plot_val_minus: "plot_val fp digits (- v) = plot_val fp digits v"
  by (simp add: plot_val_def np_abs_def)

lemma plotRound_total: "\<exists>digits out. plotRound_run np_default fp values = Inr (digits, out)"
proof (cases "values = []")
  case True
  then show ?thesis by (simp add: run_empty)
next
  case False
  from run_result [OF this, of fp] show ?thesis by blast
qed

lemma plotRound_output:
  assumes "plotRound fp self values = Inr out"
  shows "values = [] \<and> out = [] \<or>
    (\<exists>d. 0 \<le> d \<and> d \<le> 10 \<and> out = round_pass fp d (np_unique (np_sort values)))"
proof (cases "values = []")
  case True
  with assms show ?thesis by (simp add: plotRound_empty)
next
  case False
  from run_result [OF this, of fp] obtain d
    where "plotRound_run np_default fp values = Inr (d, round_pass fp d (np_unique (np_sort values)))"
      and "0 \<le> d" "d \<le> 10"
    by blast
  with assms show ?thesis by (auto simp add: plotRound_def plotRound_in_def)
qed

lemma round_pass_sorted_distinct:
  "sorted (round_pass fp d inVal) \<and> distinct (round_pass fp d inVal)"
  by (simp add: round_pass_def sorted_np_unique distinct_np_unique)

lemma set_round_pass:
  "set (round_pass fp d inVal) = (\<lambda>v. np_around fp v (decimal_place fp d v)) ` set inVal"
  by (simp add: round_pass_def set_np_unique)

lemma run_stops_at:
  assumes "values \<noteq> []" and "0 \<le> d0" and "d0 \<le> 10"
    and full: "length (round_pass fp d0 (np_unique (np_sort values))) =
      length (np_unique (np_sort values))"
    and before: "\<And>d. 0 \<le> d \<Longrightarrow> d < d0 \<Longrightarrow>
      length (round_pass fp d (np_unique (np_sort values))) < length (np_unique (np_sort values))"
  shows "plotRound_run np_default fp values =
    Inr (d0, round_pass fp d0 (np_unique (np_sort values)))"
proof -
  let ?inVal = "np_unique (np_sort values)"
  from run_result [OF assms(1), of fp] obtain d
    where run: "plotRound_run np_default fp values = Inr (d, round_pass fp d ?inVal)"
      and range: "0 \<le> d" "d \<le> 10"
      and retried: "\<forall>d'. 0 \<le> d' \<and> d' < d \<longrightarrow> length (round_pass fp d' ?inVal) < length ?inVal"
      and stop: "length (round_pass fp d ?inVal) < length ?inVal \<longrightarrow> d = 10"
    by blast
  have "d = d0"
  proof (rule ccontr)
    assume "d \<noteq> d0"
    then consider "d < d0" | "d0 < d" by linarith
    then show False
    proof cases
      case 1
      with before [OF range(1)] have "length (round_pass fp d ?inVal) < length ?inVal" by simp
      with stop have "d = 10" by simp
      with 1 assms(3) show False by simp
    next
      case 2
      with retried assms(2) have "length (round_pass fp d0 ?inVal) < length ?inVal" by simp
      with full show False by simp
    qed
  qed
  with run show ?thesis by simp
qed

section \<open>The run on one, two and three\<close>

lemma rint_log10_123:
  "rint (lib_log10 e 1) = 0" "rint (lib_log10 e 2) = 0" "rint (lib_log10 e 3) = 0"
  by (rule rint_lib_log10, simp_all add: power2_eq_square margin_def)+

lemma decimal_place_0_123:
  "decimal_place fp 0 1 = 1" "decimal_place fp 0 2 = 1" "decimal_place fp 0 3 = 1"
  by (simp_all add: decimal_place_def rint_log10_123)

lemma np_around_123:
  "np_around fp 1 1 = 1" "np_around fp 2 1 = 2" "np_around fp 3 1 = 3"
  using np_around_pos [of 1 1 10 fp] np_around_pos [of 1 2 20 fp] np_around_pos [of 1 3 30 fp]
  by (simp_all add: scale_tol_def)

lemma pass0_123: "round_pass fp 0 [1, 2, 3] = [1, 2, 3]"
  by (simp add: round_pass_def decimal_place_0_123 np_around_123 np_unique_def)

lemma inVal_123: "np_unique (np_sort [1, 2, 3]) = [1, 2, 3]"
  by (simp add: np_unique_def np_sort_def)

lemma run_123: "plotRound_run np_default fp [1, 2, 3] = Inr (0, [1, 2, 3])"
  using run_first_pass [of "[1, 2, 3]" fp] by (simp add: inVal_123 pass0_123)

section \<open>A run that needs a second pass\<close>

lemma rint_log10_101: "rint (lib_log10 e (101 / 100)) = 0"
  by (rule rint_lib_log10) (simp_all add: power2_eq_square margin_def)

lemma decimal_place_101:
  "decimal_place fp 0 (101 / 100) = 1" "decimal_place fp 1 (101 / 100) = 2"
  "decimal_place fp 1 1 = 2"
  by (simp_all add: decimal_place_def rint_log10_101 rint_log10_123)

lemma np_around_101:
  "np_around fp (101 / 100) 1 = 1" "np_around fp (101 / 100) 2 = 101 / 100"
  "np_around fp 1 2 = 1"
  using np_around_pos [of 1 "101 / 100" 10 fp] np_around_pos [of 2 "101 / 100" 101 fp]
    np_around_pos [of 2 1 100 fp]
  by (simp_all add: scale_tol_def)

lemma inVal_101: "np_unique (np_sort [1, 101 / 100]) = [1, 101 / 100]"
  by (simp add: np_unique_def np_sort_def)

lemma pass_101:
  "round_pass fp 0 [1, 101 / 100] = [1]" "round_pass fp 1 [1, 101 / 100] = [1, 101 / 100]"
  by (simp_all add: round_pass_def decimal_place_0_123 decimal_place_101 np_around_123
      np_around_101 np_unique_def)

lemma run_101: "plotRound_run np_default fp [1, 101 / 100] = Inr (1, [1, 101 / 100])"
proof -
  have "plotRound_run np_default fp [1, 101 / 100] =
      Inr (1, round_pass fp 1 (np_unique (np_sort [1, 101 / 100])))"
  proof (rule run_stops_at)
    fix d :: int
    assume "0 \<le> d" and "d < 1"
    then have "d = 0" by simp
    then show "length (round_pass fp d (np_unique (np_sort [1, 101 / 100])))
        < length (np_unique (np_sort [1, 101 / 100]))"
      by (simp add: inVal_101 pass_101)
  qed (simp_all add: inVal_101 pass_101)
  then show ?thesis by (simp add: inVal_101 pass_101)
qed

section \<open>Runs that take all eleven passes\<close>

lemma rint_log10_big:
  "rint (lib_log10 e 100000000000) = 11" "rint (lib_log10 e 100000000001) = 11"
  by (rule rint_lib_log10, simp_all add: power2_eq_square margin_def)+

lemma decimal_place_big:
  "0 \<le> d \<Longrightarrow> d \<le> 10 \<Longrightarrow> decimal_place fp d 100000000000 = d - 10"
  "0 \<le> d \<Longrightarrow> d \<le> 10 \<Longrightarrow> decimal_place fp d 100000000001 = d - 10"
  by (simp_all add: decimal_place_def rint_log10_big)

lemma np_around_big:
  assumes "0 \<le> d" and "d \<le> 9"
  shows "np_around fp 100000000000 (d - 10) = 100000000000"
    and "np_around fp 100000000001 (d - 10) = 100000000000"
proof -
  from assms have cases:
    "d = 0 \<or> d = 1 \<or> d = 2 \<or> d = 3 \<or> d = 4 \<or> d = 5 \<or> d = 6 \<or> d = 7 \<or> d = 8 \<or> d = 9"
    by arith
  from cases np_around_neg [of "d - 10" 100000000000 "10 ^ nat (d + 1)" fp]
  show "np_around fp 100000000000 (d - 10) = 100000000000"
    by (elim disjE) (simp_all add: scale_tol_def)
  from cases np_around_neg [of "d - 10" 100000000001 "10 ^ nat (d + 1)" fp]
  show "np_around fp 100000000001 (d - 10) = 100000000000"
    by (elim disjE) (simp_all add: scale_tol_def)
qed

lemma np_around_big_0:
  "np_around fp 100000000000 0 = 100000000000" "np_around fp 100000000001 0 = 100000000001"
  using np_around_pos [of 0 100000000000 100000000000 fp]
    np_around_pos [of 0 100000000001 100000000001 fp]
  by (simp_all add: scale_tol_def)

lemma inVal_big:
  "np_unique (np_sort [100000000000, 100000000001]) = [100000000000, 100000000001]"
  by (simp add: np_unique_def np_sort_def)

lemma pass_big_collapse:
  assumes "0 \<le> d" and "d \<le> 9"
  shows "round_pass fp d [100000000000, 100000000001] = [100000000000]"
  using assms by (simp add: round_pass_def decimal_place_big np_around_big np_unique_def)

lemma pass_big_10:
  "round_pass fp 10 [100000000000, 100000000001] = [100000000000, 100000000001]"
  by (simp add: round_pass_def decimal_place_big np_around_big_0 np_unique_def)

lemma run_big:
  "plotRound_run np_default fp [100000000000, 100000000001] =
     Inr (10, [100000000000, 100000000001])"
proof -
  have "plotRound_run np_default fp [100000000000, 100000000001] =
      Inr (10, round_pass fp 10 (np_unique (np_sort [100000000000, 100000000001])))"
  proof (rule run_stops_at)
    fix d :: int
    assume "0 \<le> d" and "d < 10"
    then show "length (round_pass fp d (np_unique (np_sort [100000000000, 100000000001])))
        < length (np_unique (np_sort [100000000000, 100000000001]))"
      by (simp add: inVal_big pass_big_collapse)
  qed (simp_all add: inVal_big pass_big_10)
  then show ?thesis by (simp add: inVal_big pass_big_10)
qed

lemma rint_log10_near1: "rint (lib_log10 e (100000000001 / 100000000000)) = 0"
  by (rule rint_lib_log10) (simp_all add: power2_eq_square margin_def)

lemma inVal_near1:
  "np_unique (np_sort [1, 100000000001 / 100000000000]) = [1, 100000000001 / 100000000000]"
  by (simp add: np_unique_def np_sort_def)

lemma pass_near1_collapse:
  assumes "0 \<le> d" and "d \<le> 10"
  shows "round_pass fp d [1, 100000000001 / 100000000000] = [1]"
proof -
  have dp: "decimal_place fp d 1 = min 10 (d + 1)"
    "decimal_place fp d (100000000001 / 100000000000) = min 10 (d + 1)"
    using assms by (simp_all add: decimal_place_def rint_log10_near1 rint_log10_123)
  have k: "min 10 (d + 1) = 1 \<or> min 10 (d + 1) = 2 \<or> min 10 (d + 1) = 3 \<or>
      min 10 (d + 1) = 4 \<or> min 10 (d + 1) = 5 \<or> min 10 (d + 1) = 6 \<or> min 10 (d + 1) = 7 \<or>
      min 10 (d + 1) = 8 \<or> min 10 (d + 1) = 9 \<or> min 10 (d + 1) = 10"
    using assms by arith
  from k np_around_pos [of "min 10 (d + 1)" 1 "10 ^ nat (min 10 (d + 1))" fp]
  have "np_around fp 1 (min 10 (d + 1)) = 1"
    by (elim disjE) (simp_all add: scale_tol_def)
  moreover
  from k np_around_pos [of "min 10 (d + 1)" "100000000001 / 100000000000"
      "10 ^ nat (min 10 (d + 1))" fp]
  have "np_around fp (100000000001 / 100000000000) (min 10 (d + 1)) = 1"
    by (elim disjE) (simp_all add: scale_tol_def)
  ultimately show ?thesis
    by (simp add: round_pass_def dp np_unique_def)
qed

section \<open>Runs on rounded values\<close>

lemma rint_log10_316: "rint (lib_log10 e 316) = 2"
  by (rule rint_lib_log10) (simp_all add: power2_eq_square margin_def)

lemma rint_log10_320: "rint (lib_log10 e 320) = 3"
  by (rule rint_lib_log10) (simp_all add: power2_eq_square margin_def)

lemma pass0_316: "round_pass fp 0 [316] = [320]"
proof -
  have "decimal_place fp 0 316 = - 1"
    by (simp add: decimal_place_def rint_log10_316)
  moreover have "np_around fp 316 (- 1) = 320"
    using np_around_neg [of "- 1" 316 32 fp] by (simp add: scale_tol_def)
  ultimately show ?thesis
    by (simp add: round_pass_def np_unique_def)
qed

lemma pass0_320: "round_pass fp 0 [320] = [300]"
proof -
  have "decimal_place fp 0 320 = - 2"
    by (simp add: decimal_place_def rint_log10_320)
  moreover have "np_around fp 320 (- 2) = 300"
    using np_around_neg [of "- 2" 320 3 fp] by (simp add: scale_tol_def)
  ultimately show ?thesis
    by (simp add: round_pass_def np_unique_def)
qed

lemma run_316: "plotRound_run np_default fp [316] = Inr (0, [320])"
  using run_first_pass [of "[316]" fp] by (simp add: inVal_fixed pass0_316)

lemma run_320: "plotRound_run np_default fp [320] = Inr (0, [300])"
  using run_first_pass [of "[320]" fp] by (simp add: inVal_fixed pass0_320)

section \<open>The run on zero, a hundred and a ten-thousandth\<close>

lemma rint_log10_100: "rint (lib_log10 e 100) = 2"
  by (rule rint_lib_log10) (simp_all add: power2_eq_square margin_def)

lemma rint_log10_small: "rint (lib_log10 e (1 / 10000)) = - 4"
  by (rule rint_lib_log10) (simp_all add: power2_eq_square margin_def)

lemma np_around_zero: "np_around fp 0 10 = 0"
  using np_around_pos [of 10 0 0 fp] by simp

lemma pass0_zero_mix: "round_pass fp 0 [0, 1 / 10000, 100] = [0, 1 / 10000, 100]"
proof -
  have "decimal_place fp 0 0 = 10" "decimal_place fp 0 (1 / 10000) = 5"
    "decimal_place fp 0 100 = - 1"
    by (simp_all add: decimal_place_def rint_log10_100 rint_log10_small)
  moreover have "np_around fp (1 / 10000) 5 = 1 / 10000" "np_around fp 100 (- 1) = 100"
    using np_around_pos [of 5 "1 / 10000" 10 fp] np_around_neg [of "- 1" 100 10 fp]
    by (simp_all add: scale_tol_def)
  ultimately show ?thesis
    by (simp add: round_pass_def np_around_zero np_unique_def)
qed

lemma inVal_zero_mix:
  assumes "set values = {0, 100, 1 / 10000}"
  shows "np_unique (np_sort values) = [0, 1 / 10000, 100]"
proof (rule sorted_distinct_set_unique)
  show "sorted (np_unique (np_sort values))" by (rule sorted_np_unique)
  show "distinct (np_unique (np_sort values))" by (rule distinct_np_unique)
  show "sorted [0, 1 / 10000, 100 :: real]" by simp
  show "distinct [0, 1 / 10000, 100 :: real]" by simp
  show "set (np_unique (np_sort values)) = set [0, 1 / 10000, 100]"
    using assms by (auto simp add: set_inVal)
qed

lemma run_zero: "plotRound_run np_default fp [0] = Inr (0, [0])"
proof -
  have "round_pass fp 0 [0] = [0]"
    by (simp add: round_pass_def decimal_place_def np_around_zero np_unique_def)
  with run_first_pass [of "[0]" fp] show ?thesis by (simp add: inVal_fixed)
qed

section \<open>The decimal place of five\<close>

lemma rint_log10_5: "rint (lib_log10 e 5) = 1"
  by (rule rint_lib_log10) (simp_all add: power2_eq_square margin_def)

lemma floor_log10_5: "\<lfloor>lib_log10 e 5\<rfloor> = 0"
  by (rule floor_lib_log10) (simp_all add: margin_def)

lemma log10_5_between:
  "of_int 1 - 1 / 2 + log10_tol < log 10 \<bar>5\<bar> \<and> log 10 \<bar>5 :: real\<bar> < of_int 1 + 1 / 2 - log10_tol"
  using log10_between_squares [of 5 1] by (simp add: power2_eq_square margin_def)

section \<open>The claims about \<^verbatim>\<open>_plotRound\<close>\<close>

text \<open>
  C1: for every input sequence (the empty one included), the output of
  \<^verbatim>\<open>_plotRound\<close> is no longer than the deduplicated input, and it has exactly the
  length of the deduplicated input whenever at some level of \<^verbatim>\<open>digits\<close> from 0 to
  10 the rounded values are pairwise distinct.
\<close>

theorem plotRound_length:
  "\<exists>out. plotRound fp self values = Inr out \<and>
     length out \<le> length (np_unique (np_sort values)) \<and>
     ((\<exists>d\<in>{0..limit}. \<exists>r.
          round_each fp (np_unique (np_sort values))
            (plot_vals fp d (np_unique (np_sort values))) = Inr r \<and>
          distinct r)
      \<longrightarrow> length out = length (np_unique (np_sort values)))"
proof (cases "values = []")
  case True
  then show ?thesis
    by (simp add: plotRound_empty np_unique_def np_sort_def)
next
  case False
  let ?inVal = "np_unique (np_sort values)"
  from run_result [OF False, of fp] obtain d
    where run: "plotRound_run np_default fp values = Inr (d, round_pass fp d ?inVal)"
      and range: "0 \<le> d" "d \<le> 10"
      and retried: "\<forall>d'. 0 \<le> d' \<and> d' < d \<longrightarrow> length (round_pass fp d' ?inVal) < length ?inVal"
      and stop: "length (round_pass fp d ?inVal) < length ?inVal \<longrightarrow> d = 10"
    by blast
  have out: "plotRound fp self values = Inr (round_pass fp d ?inVal)"
    using run by (rule plotRound_of_run)
  have le: "length (round_pass fp d ?inVal) \<le> length ?inVal"
    by (rule length_round_pass_le)
  have "length (round_pass fp d ?inVal) = length ?inVal"
    if "d0 \<in> {0..limit}" and "round_each fp ?inVal (plot_vals fp d0 ?inVal) = Inr r"
      and "distinct r"
    for d0 r
  proof (rule ccontr)
    assume "length (round_pass fp d ?inVal) \<noteq> length ?inVal"
    with le have less: "length (round_pass fp d ?inVal) < length ?inVal" by simp
    with stop have "d = 10" by simp
    have full: "length (round_pass fp d0 ?inVal) = length ?inVal"
      using that(2,3) by (rule pass_distinct_length)
    from that(1) have "0 \<le> d0" "d0 \<le> 10" by (simp_all add: limit_def)
    show False
    proof (cases "d0 = d")
      case True
      with full less show False by simp
    next
      case False
      with \<open>d0 \<le> 10\<close> \<open>d = 10\<close> have "d0 < d" by simp
      with retried \<open>0 \<le> d0\<close> have "length (round_pass fp d0 ?inVal) < length ?inVal" by simp
      with full show False by simp
    qed
  qed
  with out le show ?thesis by blast
qed

text \<open>The input \<open>[1, 1.01]\<close>: the pass at \<^verbatim>\<open>digits = 1\<close> keeps both values apart.\<close>

theorem plotRound_length_witness:
  "(\<exists>d\<in>{0..limit}. \<exists>r.
      round_each exact [1, 101 / 100] (plot_vals exact d [1, 101 / 100]) = Inr r \<and> distinct r) \<and>
   (\<exists>out. plotRound exact plot0 [1, 101 / 100] = Inr out \<and> length out = 2)"
proof -
  have "round_each exact [1, 101 / 100] (plot_vals exact 1 [1, 101 / 100]) = Inr [1, 101 / 100]"
    by (simp add: round_each_closed decimal_place_101 np_around_101)
  then have hyp: "\<exists>d\<in>{0..limit}. \<exists>r.
      round_each exact [1, 101 / 100] (plot_vals exact d [1, 101 / 100]) = Inr r \<and> distinct r"
    by (intro bexI [of _ 1]) (simp_all add: limit_def)
  with plotRound_length [of exact plot0 "[1, 101 / 100]"] show ?thesis
    by (auto simp add: inVal_101 numeral_2_eq_2)
qed

text \<open>
  C2, as the specification states it, takes the floor of the logarithm. At \<open>v = 5\<close>
  and \<^verbatim>\<open>digits = 0\<close> the code rounds \<open>log10 5 = 0.69...\<close> up to 1 and asks for
  0 decimals, where the floor asks for 1, whatever the rounding of the library.
\<close>

theorem decimal_place_not_floor:
  "\<forall>fp. py_int (plot_val fp 0 5) = Inr 0 \<and> spec_decimal_place fp 0 5 = 1 \<and>
     py_int (plot_val fp 0 5) \<noteq> Inr (spec_decimal_place fp 0 5)"
  by (simp add: py_int_plot_val decimal_place_def rint_log10_5 spec_decimal_place_def
      floor_log10_5)

text \<open>
  C2, amended: for every value \<open>v\<close> and every level of \<^verbatim>\<open>digits\<close> the decimal
  place \<^verbatim>\<open>int(val[i])\<close> is \<open>- round L + digits + 1\<close> clamped to the interval from
  \<open>-10\<close> to 10, where \<open>L\<close> is what \<^verbatim>\<open>numpy.log10\<close> returns for \<open>|v|\<close> and
  \<open>round\<close> is rounding to the nearest integer (a tie to the even one); for \<open>v = 0\<close>
  it is 10. Hence, wherever \<open>log10 |v|\<close> lies between \<open>k - 1/2\<close> and \<open>k + 1/2\<close> and
  farther from both than the tolerance of the library's logarithm, the place is
  \<open>- k + digits + 1\<close> clamped.
\<close>

theorem decimal_place_rounds_log:
  "py_int (plot_val fp digits v) =
     Inr (if v = 0 then 10
          else max (- 10) (min 10 (- rint (lib_log10 (log10_err fp \<bar>v\<bar>) \<bar>v\<bar>) + digits + 1))) \<and>
   (v \<noteq> 0 \<and> of_int k - 1 / 2 + log10_tol < log 10 \<bar>v\<bar> \<and>
      log 10 \<bar>v\<bar> < of_int k + 1 / 2 - log10_tol
    \<longrightarrow> py_int (plot_val fp digits v) = Inr (max (- 10) (min 10 (- k + digits + 1))))"
proof -
  have place: "py_int (plot_val fp digits v) =
      Inr (if v = 0 then 10
           else max (- 10) (min 10 (- rint (lib_log10 (log10_err fp \<bar>v\<bar>) \<bar>v\<bar>) + digits + 1)))"
    by (simp only: py_int_plot_val decimal_place_def)
  have "py_int (plot_val fp digits v) = Inr (max (- 10) (min 10 (- k + digits + 1)))"
    if "v \<noteq> 0" and "of_int k - 1 / 2 + log10_tol < log 10 \<bar>v\<bar>"
      and "log 10 \<bar>v\<bar> < of_int k + 1 / 2 - log10_tol"
  proof -
    from that(2,3) have "rint (lib_log10 (log10_err fp \<bar>v\<bar>) \<bar>v\<bar>) = k"
      by (rule rint_lib_log10_between)
    with place that(1) show ?thesis by simp
  qed
  with place show ?thesis by blast
qed

text \<open>The value 5 with \<open>k = 1\<close>: at \<^verbatim>\<open>digits = 0\<close> the place is 0.\<close>

theorem decimal_place_rounds_log_witness:
  "((5 :: real) \<noteq> 0 \<and> of_int 1 - 1 / 2 + log10_tol < log 10 \<bar>5\<bar> \<and>
      log 10 \<bar>5 :: real\<bar> < of_int 1 + 1 / 2 - log10_tol) \<and>
   py_int (plot_val exact 0 5) = Inr 0"
proof -
  have hyp: "(5 :: real) \<noteq> 0 \<and> of_int 1 - 1 / 2 + log10_tol < log 10 \<bar>5\<bar> \<and>
      log 10 \<bar>5 :: real\<bar> < of_int 1 + 1 / 2 - log10_tol"
    using log10_5_between by simp
  from decimal_place_rounds_log [of exact 0 5 1] hyp
  have "py_int (plot_val exact 0 5) = Inr (max (- 10) (min 10 (- 1 + 0 + 1)))"
    by blast
  with hyp show ?thesis by simp
qed

text \<open>
  C3, as the specification states it, bounds the search by ten passes. The input
  \<open>[100000000000, 100000000001]\<close> takes eleven: the ten passes with
  \<^verbatim>\<open>digits\<close> from 0 to 9 round both values to \<open>100000000000\<close>, and the
  eleventh, with \<^verbatim>\<open>digits = 10\<close>, tells them apart.
\<close>

theorem plotRound_eleven_passes:
  "\<forall>fp. \<exists>digits output.
     plotRound_run np_default fp [100000000000, 100000000001] = Inr (digits, output) \<and>
     \<not> digits + 1 \<le> 10"
  by (simp add: run_big)

text \<open>
  C3, amended: for a non-empty input the loop body runs at least once and at most eleven
  times (\<^verbatim>\<open>digits\<close> from 0 to 10). The output is the deduplicated rounding of
  the last pass; every earlier pass was retried because its deduplicated rounding had
  fewer entries than the deduplicated input; and an output with fewer entries than the
  deduplicated input is returned only once \<^verbatim>\<open>digits\<close> has reached 10.
\<close>

theorem plotRound_search:
  assumes "values \<noteq> []"
  shows "let inVal = np_unique (np_sort values) in
    \<exists>digits output.
      plotRound_run np_default fp values = Inr (digits, output) \<and>
      plotRound fp self values = Inr output \<and>
      0 \<le> digits \<and> digits + 1 \<le> 11 \<and>
      (\<exists>r. round_each fp inVal (plot_vals fp digits inVal) = Inr r \<and> output = np_unique r) \<and>
      (\<forall>d. 0 \<le> d \<and> d < digits \<longrightarrow>
         (\<exists>r. round_each fp inVal (plot_vals fp d inVal) = Inr r \<and>
              length (np_unique r) < length inVal)) \<and>
      (length output < length inVal \<longrightarrow> digits = 10)"
proof -
  let ?inVal = "np_unique (np_sort values)"
  from run_result [OF assms, of fp] obtain digits
    where run: "plotRound_run np_default fp values = Inr (digits, round_pass fp digits ?inVal)"
      and range: "0 \<le> digits" "digits \<le> 10"
      and retried: "\<forall>d'. 0 \<le> d' \<and> d' < digits \<longrightarrow>
          length (round_pass fp d' ?inVal) < length ?inVal"
      and stop: "length (round_pass fp digits ?inVal) < length ?inVal \<longrightarrow> digits = 10"
    by blast
  have code: "\<exists>r. round_each fp ?inVal (plot_vals fp d ?inVal) = Inr r \<and>
      np_unique r = round_pass fp d ?inVal" for d
    using pass_as_code [of fp ?inVal d] by blast
  have last: "\<exists>r. round_each fp ?inVal (plot_vals fp digits ?inVal) = Inr r \<and>
      round_pass fp digits ?inVal = np_unique r"
    using code [of digits] by auto
  have earlier: "\<exists>r. round_each fp ?inVal (plot_vals fp d ?inVal) = Inr r \<and>
      length (np_unique r) < length ?inVal" if "0 \<le> d \<and> d < digits" for d
    using code [of d] retried that by auto
  have "plotRound fp self values = Inr (round_pass fp digits ?inVal)"
    using run by (rule plotRound_of_run)
  with run range last earlier stop show ?thesis
    unfolding Let_def by (intro exI [of _ digits] exI [of _ "round_pass fp digits ?inVal"]) simp
qed

text \<open>
  The input \<open>[1, 1.01]\<close> is retried once; the input \<open>[1, 1.00000000001]\<close>
  exhausts the search and comes back as one value.
\<close>

theorem plotRound_search_witness:
  "[1, 101 / 100] \<noteq> ([] :: real list) \<and>
   (\<exists>digits output. plotRound_run np_default exact [1, 101 / 100] = Inr (digits, output) \<and>
      digits = 1 \<and>
      (\<exists>r. round_each exact [1, 101 / 100] (plot_vals exact 0 [1, 101 / 100]) = Inr r \<and>
           length (np_unique r) < 2)) \<and>
   (\<exists>digits output.
      plotRound_run np_default exact [1, 100000000001 / 100000000000] = Inr (digits, output) \<and>
      length output < 2 \<and> digits = 10)"
proof -
  have ne: "[1, 101 / 100] \<noteq> ([] :: real list)" by simp
  from plotRound_search [OF ne, of exact plot0] obtain digits outp
    where run: "plotRound_run np_default exact [1, 101 / 100] = Inr (digits, outp)"
      and retried: "\<forall>d. 0 \<le> d \<and> d < digits \<longrightarrow>
         (\<exists>r. round_each exact [1, 101 / 100] (plot_vals exact d [1, 101 / 100]) = Inr r \<and>
              length (np_unique r) < length [1, 101 / 100 :: real])"
    unfolding Let_def inVal_101 by blast
  from run have "digits = 1" by (simp add: run_101)
  with retried
  have first: "\<exists>r. round_each exact [1, 101 / 100] (plot_vals exact 0 [1, 101 / 100]) = Inr r \<and>
      length (np_unique r) < 2"
    by (auto simp add: numeral_2_eq_2)
  let ?vs = "[1, 100000000001 / 100000000000 :: real]"
  have ne': "?vs \<noteq> []" by simp
  from plotRound_search [OF ne', of exact plot0] obtain digits' output' r
    where run': "plotRound_run np_default exact ?vs = Inr (digits', output')"
      and range': "0 \<le> digits'" "digits' + 1 \<le> 11"
      and pass': "round_each exact ?vs (plot_vals exact digits' ?vs) = Inr r" "output' = np_unique r"
      and stop': "length output' < length ?vs \<longrightarrow> digits' = 10"
    unfolding Let_def inVal_near1 by blast
  from pass' have "output' = round_pass exact digits' ?vs"
    using pass_as_code [of exact ?vs digits'] by auto
  with range' have "output' = [1]" by (simp add: pass_near1_collapse)
  with stop' have second: "length output' < 2 \<and> digits' = 10" by simp
  from ne run \<open>digits = 1\<close> first run' second show ?thesis by blast
qed

text \<open>
  C4: for every input the output of \<^verbatim>\<open>_plotRound\<close> is sorted in ascending order,
  has no duplicates, and each of its elements is an input value \<open>v\<close> rounded to the
  decimal place the code computes for \<open>v\<close> at some level of \<^verbatim>\<open>digits\<close> from 0
  to 10.
\<close>

theorem plotRound_sorted_distinct:
  "\<exists>out. plotRound fp self values = Inr out \<and> sorted out \<and> distinct out \<and>
     (\<forall>y\<in>set out. \<exists>v\<in>set values. \<exists>d\<in>{0..limit}. \<exists>k.
        py_int (plot_val fp d v) = Inr k \<and> y = np_around fp v k)"
proof -
  from plotRound_total [of fp "values"] obtain digits out
    where run: "plotRound_run np_default fp values = Inr (digits, out)"
    by blast
  then have res: "plotRound fp self values = Inr out"
    by (rule plotRound_of_run)
  from plotRound_output [OF res] show ?thesis
  proof
    assume "values = [] \<and> out = []"
    with res show ?thesis by simp
  next
    assume "\<exists>d. 0 \<le> d \<and> d \<le> 10 \<and> out = round_pass fp d (np_unique (np_sort values))"
    then obtain d where d: "0 \<le> d" "d \<le> 10"
      and out: "out = round_pass fp d (np_unique (np_sort values))"
      by blast
    have "\<exists>v\<in>set values. \<exists>d\<in>{0..limit}. \<exists>k.
        py_int (plot_val fp d v) = Inr k \<and> y = np_around fp v k"
      if "y \<in> set out" for y
    proof -
      from that out obtain v where "v \<in> set values"
        and "y = np_around fp v (decimal_place fp d v)"
        by (auto simp add: set_round_pass set_inVal)
      moreover have "d \<in> {0..limit}" using d by (simp add: limit_def)
      moreover have "py_int (plot_val fp d v) = Inr (decimal_place fp d v)"
        by (rule py_int_plot_val)
      ultimately show ?thesis by blast
    qed
    with res out round_pass_sorted_distinct [of fp d "np_unique (np_sort values)"]
    show ?thesis by blast
  qed
qed

text \<open>The input \<open>[3, 1, 2, 1]\<close> comes back as \<open>[1, 2, 3]\<close>; its element 2 is the input 2.\<close>

theorem plotRound_sorted_distinct_witness:
  "plotRound exact plot0 [3, 1, 2, 1] = Inr [1, 2, 3] \<and> sorted [1, 2, 3 :: real] \<and>
   distinct [1, 2, 3 :: real] \<and>
   (\<exists>v\<in>set [3, 1, 2, 1]. \<exists>d\<in>{0..limit}. \<exists>k.
      py_int (plot_val exact d v) = Inr k \<and> (2 :: real) = np_around exact v k)"
proof -
  have "plotRound_run np_default exact [3, 1, 2, 1] = plotRound_run np_default exact [1, 2, 3]"
    by (simp add: plotRound_run_def np_unique_def np_sort_def)
  then have res: "plotRound exact plot0 [3, 1, 2, 1] = Inr [1, 2, 3]"
    by (simp add: plotRound_def plotRound_in_def run_123)
  from plotRound_sorted_distinct [of exact plot0 "[3, 1, 2, 1]"] obtain out
    where "plotRound exact plot0 [3, 1, 2, 1] = Inr out" and "sorted out" and "distinct out"
      and rep: "\<forall>y\<in>set out. \<exists>v\<in>set [3, 1, 2, 1]. \<exists>d\<in>{0..limit}. \<exists>k.
        py_int (plot_val exact d v) = Inr k \<and> y = np_around exact v k"
    by blast
  with res have out: "out = [1, 2, 3]" by simp
  with rep have "\<exists>v\<in>set [3, 1, 2, 1]. \<exists>d\<in>{0..limit}. \<exists>k.
      py_int (plot_val exact d v) = Inr k \<and> (2 :: real) = np_around exact v k"
    by simp
  with res \<open>sorted out\<close> \<open>distinct out\<close> out show ?thesis by blast
qed

text \<open>
  C5: for every finite input, of any sign and with or without zeros,
  \<^verbatim>\<open>_plotRound\<close> returns a result and raises nothing. The logarithm is taken of the
  absolute value, so it is never a not-a-number and \<open>v\<close> and \<open>- v\<close> get the same
  decimal place; every decimal place is an integer from \<open>-10\<close> to 10; and for the value
  zero the place is infinite before the clamp and 10 after it.
\<close>

theorem plotRound_no_exception:
  "(\<exists>out. plotRound fp self values = Inr out) \<and>
   np_log10 fp (np_abs v) \<noteq> NaN \<and>
   plot_val fp digits (- v) = plot_val fp digits v \<and>
   (\<exists>k. py_int (plot_val fp digits v) = Inr k \<and> - 10 \<le> k \<and> k \<le> 10) \<and>
   xf_add (xf_add (xf_mul (np_around0 (np_log10 fp (np_abs 0))) (- 1)) (of_int digits)) 1 =
     PosInf \<and>
   py_int (plot_val fp digits 0) = Inr 10"
proof -
  from plotRound_total [of fp "values"] obtain d out
    where "plotRound_run np_default fp values = Inr (d, out)"
    by blast
  then have "plotRound fp self values = Inr out"
    by (rule plotRound_of_run)
  then have total: "\<exists>out. plotRound fp self values = Inr out" ..
  have abs: "np_log10 fp (np_abs v) \<noteq> NaN"
    by (simp add: np_log10_def np_abs_def)
  have place: "\<exists>k. py_int (plot_val fp digits v) = Inr k \<and> - 10 \<le> k \<and> k \<le> 10"
    using py_int_plot_val [of fp digits v] decimal_place_bounds [of fp digits v] by blast
  have zero: "py_int (plot_val fp digits 0) = Inr 10"
    by (simp add: py_int_plot_val decimal_place_def)
  from total abs plot_val_minus place unclamped_zero zero show ?thesis
    by blast
qed

text \<open>
  C6, as the specification states it, fails on the input \<open>[316]\<close>: the first run
  returns \<open>[320]\<close>, and the run on \<open>[320]\<close> returns \<open>[300]\<close>, because
  \<open>log10 320\<close> rounds up to 3 where \<open>log10 316\<close> rounds down to 2, so that
  \<open>320\<close> is rounded to the hundreds.
\<close>

theorem plotRound_not_idempotent:
  "\<forall>fp. plotRound fp plot0 [316] = Inr [320] \<and> plotRound fp plot0 [320] = Inr [300] \<and>
     plotRound fp plot0 [320] \<noteq> Inr [320]"
  by (simp add: plotRound_def plotRound_in_def run_316 run_320)

text \<open>
  C6, amended: let \<open>out\<close> be the output of a first run, on any finite input. An empty
  \<open>out\<close> is returned unchanged. Otherwise the second run, on \<open>out\<close>, stops at the
  first level \<open>d2\<close> of \<^verbatim>\<open>digits\<close> from 0 to 10 at which the rounded values of
  \<open>out\<close> are pairwise distinct, or at 10 when there is none, and it returns \<open>out\<close>
  unchanged exactly when the rounding pass at \<open>d2\<close> maps the values of \<open>out\<close> onto
  themselves; so it does whenever that pass leaves every value of \<open>out\<close> as it is.
\<close>

theorem plotRound_rerun:
  assumes "plotRound fp self values = Inr out"
  shows "(out = [] \<and> plotRound fp self' out = Inr out) \<or>
    (\<exists>d2 r.
       plotRound_run np_default fp out = Inr (d2, np_unique r) \<and> 0 \<le> d2 \<and> d2 \<le> 10 \<and>
       round_each fp out (plot_vals fp d2 out) = Inr r \<and>
       (\<forall>d. 0 \<le> d \<and> d < d2 \<longrightarrow>
          (\<exists>r'. round_each fp out (plot_vals fp d out) = Inr r' \<and> \<not> distinct r')) \<and>
       (distinct r \<or> d2 = 10) \<and>
       (plotRound fp self' out = Inr out \<longleftrightarrow> set r = set out))"
proof (cases "out = []")
  case True
  then show ?thesis by (simp add: plotRound_empty)
next
  case False
  from plotRound_output [OF assms] False
  obtain d where "out = round_pass fp d (np_unique (np_sort values))"
    by blast
  then have sorted: "sorted out" and distinct: "distinct out"
    using round_pass_sorted_distinct [of fp d "np_unique (np_sort values)"] by simp_all
  then have inVal: "np_unique (np_sort out) = out"
    by (rule inVal_fixed)
  from run_result [OF False, of fp] obtain d2
    where run: "plotRound_run np_default fp out = Inr (d2, round_pass fp d2 out)"
      and range: "0 \<le> d2" "d2 \<le> 10"
      and retried: "\<forall>d'. 0 \<le> d' \<and> d' < d2 \<longrightarrow> length (round_pass fp d' out) < length out"
      and stop: "length (round_pass fp d2 out) < length out \<longrightarrow> d2 = 10"
    unfolding inVal by blast
  define r where "r = map (\<lambda>v. np_around fp v (decimal_place fp d2 v)) out"
  have pass: "round_each fp out (plot_vals fp d2 out) = Inr r"
    by (simp add: r_def round_each_closed)
  have uniq: "np_unique r = round_pass fp d2 out"
    by (simp add: r_def round_pass_def)
  have earlier: "\<exists>r'. round_each fp out (plot_vals fp d' out) = Inr r' \<and> \<not> distinct r'"
    if "0 \<le> d' \<and> d' < d2" for d'
  proof -
    from pass_as_code [of fp out d'] obtain r'
      where r': "round_each fp out (plot_vals fp d' out) = Inr r'"
        and iff: "distinct r' \<longleftrightarrow> length (round_pass fp d' out) = length out"
      by blast
    from retried that have "length (round_pass fp d' out) < length out" by simp
    with iff have "\<not> distinct r'" by simp
    with r' show ?thesis by blast
  qed
  have last: "distinct r \<or> d2 = 10"
  proof (cases "distinct r")
    case True
    then show ?thesis ..
  next
    case False
    with pass_as_code [of fp out d2] pass
    have "length (round_pass fp d2 out) \<noteq> length out" by simp
    with length_round_pass_le [of fp d2 out] stop show ?thesis by simp
  qed
  have res: "plotRound fp self' out = Inr (np_unique r)"
    using run unfolding uniq [symmetric] by (rule plotRound_of_run)
  have "np_unique r = out \<longleftrightarrow> set r = set out"
  proof
    assume "np_unique r = out"
    then have "set (np_unique r) = set out" by simp
    then show "set r = set out" by (simp add: set_np_unique)
  next
    assume "set r = set out"
    then have "set (np_unique r) = set out" by (simp add: set_np_unique)
    with sorted distinct show "np_unique r = out"
      by (intro sorted_distinct_set_unique) (simp_all add: sorted_np_unique distinct_np_unique)
  qed
  with res have same: "plotRound fp self' out = Inr out \<longleftrightarrow> set r = set out" by simp
  from run range pass earlier last same show ?thesis
    unfolding uniq [symmetric] by blast
qed

text \<open>
  The input \<open>[1, 1.01]\<close> comes back as it is, and so does the second run on it, which
  stops at \<open>d2 = 1\<close>, where the pass leaves both values as they are.
\<close>

theorem plotRound_rerun_witness:
  "plotRound exact plot0 [1, 101 / 100] = Inr [1, 101 / 100] \<and>
   plotRound_run np_default exact [1, 101 / 100] = Inr (1, [1, 101 / 100]) \<and>
   (\<exists>r'. round_each exact [1, 101 / 100] (plot_vals exact 0 [1, 101 / 100]) = Inr r' \<and>
       \<not> distinct r') \<and>
   round_each exact [1, 101 / 100] (plot_vals exact 1 [1, 101 / 100]) = Inr [1, 101 / 100] \<and>
   plotRound exact plot0 [1, 101 / 100] = Inr [1, 101 / 100]"
proof -
  let ?out = "[1, 101 / 100 :: real]"
  have first: "plotRound exact plot0 ?out = Inr ?out"
    by (simp add: plotRound_def plotRound_in_def run_101)
  have run: "plotRound_run np_default exact ?out = Inr (1, ?out)"
    by (rule run_101)
  have pass1: "round_each exact ?out (plot_vals exact 1 ?out) = Inr ?out"
    by (simp add: round_each_closed decimal_place_101 np_around_101)
  from plotRound_rerun [OF first, of plot0] obtain d2 r
    where run2: "plotRound_run np_default exact ?out = Inr (d2, np_unique r)"
      and r: "round_each exact ?out (plot_vals exact d2 ?out) = Inr r"
      and earlier: "\<forall>d. 0 \<le> d \<and> d < d2 \<longrightarrow>
          (\<exists>r'. round_each exact ?out (plot_vals exact d ?out) = Inr r' \<and> \<not> distinct r')"
      and same: "plotRound exact plot0 ?out = Inr ?out \<longleftrightarrow> set r = set ?out"
    by auto
  from run run2 have "d2 = 1" by simp
  with r pass1 have "r = ?out" by simp
  with same have again: "plotRound exact plot0 ?out = Inr ?out" by simp
  from earlier \<open>d2 = 1\<close>
  have "\<exists>r'. round_each exact ?out (plot_vals exact 0 ?out) = Inr r' \<and> \<not> distinct r'"
    by simp
  with first run pass1 again show ?thesis by blast
qed

text \<open>
  C7, as the specification states it, fails on the input \<open>[0.0]\<close>: run in NumPy's
  default error handling, \<^verbatim>\<open>_plotRound\<close> returns \<open>[0.0]\<close>; run after
  \<^verbatim>\<open>numpy.seterr(divide='raise')\<close>, \<^verbatim>\<open>numpy.log10\<close> raises
  \<^verbatim>\<open>FloatingPointError\<close> in line 101. The error handling is state outside the
  method that any code of the thread can change.
\<close>

theorem plotRound_depends_on_error_state:
  "\<forall>fp. plotRound_in np_default fp plot0 [0] = Inr [0] \<and>
     plotRound_in (np_default\<lparr>on_divide := Some FloatingPointError\<rparr>) fp plot0 [0] =
       Inl FloatingPointError \<and>
     plotRound_in np_default fp plot0 [0] \<noteq>
       plotRound_in (np_default\<lparr>on_divide := Some FloatingPointError\<rparr>) fp plot0 [0]"
proof -
  have "plotRound_run (np_default\<lparr>on_divide := Some FloatingPointError\<rparr>) fp [0] =
      Inl FloatingPointError" for fp
    by (rule run_raises) simp_all
  then show ?thesis
    by (simp add: plotRound_in_def run_zero)
qed

text \<open>
  C7, amended: two runs of \<^verbatim>\<open>_plotRound\<close> on equal finite input sequences give equal
  results, whatever the two plot objects and whatever the error handling of the two
  runs, provided the input has no zero or the two error handlings treat a division by
  zero alike. The state outside the method reaches the result in one way only: with no
  zero in the input, or with an error handling that lets a division by zero continue,
  the method returns what it returns in the default error handling; with a zero in the
  input and an error handling that raises on a division by zero, it raises that exception.
\<close>

theorem plotRound_deterministic:
  assumes "values1 = values2"
    and "0 \<notin> set values1 \<or> on_divide st1 = on_divide st2"
  shows "plotRound_in st1 fp self1 values1 = plotRound_in st2 fp self2 values2 \<and>
    (0 \<notin> set values1 \<or> on_divide st1 = None \<longrightarrow>
       plotRound_in st1 fp self1 values1 = plotRound fp self2 values1 \<and>
       (\<exists>out. plotRound_in st1 fp self1 values1 = Inr out)) \<and>
    (\<forall>e. 0 \<in> set values1 \<and> on_divide st1 = Some e \<longrightarrow>
       plotRound_in st1 fp self1 values1 = Inl e)"
proof -
  have same: "plotRound_in st1 fp self1 values1 = plotRound_in st2 fp self2 values2"
    using assms run_same_signals [of values1 st1 st2 fp]
    by (simp add: plotRound_in_def)
  have quiet: "plotRound_in st1 fp self1 values1 = plotRound fp self2 values1 \<and>
      (\<exists>out. plotRound_in st1 fp self1 values1 = Inr out)"
    if "0 \<notin> set values1 \<or> on_divide st1 = None"
  proof -
    from that have "0 \<notin> set values1 \<or> on_divide st1 = on_divide np_default"
      by (simp add: np_default_def)
    then have run: "plotRound_run st1 fp values1 = plotRound_run np_default fp values1"
      by (rule run_same_signals)
    then have eq: "plotRound_in st1 fp self1 values1 = plotRound fp self2 values1"
      by (simp add: plotRound_def plotRound_in_def)
    from plotRound_total [of fp values1] obtain digits out
      where "plotRound_run np_default fp values1 = Inr (digits, out)"
      by blast
    with run have "plotRound_in st1 fp self1 values1 = Inr out"
      by (simp add: plotRound_in_def)
    with eq show ?thesis by blast
  qed
  have raises: "plotRound_in st1 fp self1 values1 = Inl e"
    if "0 \<in> set values1 \<and> on_divide st1 = Some e" for e
    using that run_raises [of values1 st1 e fp] by (simp add: plotRound_in_def)
  from same quiet raises show ?thesis by blast
qed

text \<open>
  The input \<open>[1, 2, 3]\<close> in the default and in a raising error handling, and the input
  \<open>[0]\<close> in two error handlings that differ in what an invalid value does.
\<close>

theorem plotRound_deterministic_witness:
  "([1, 2, 3] = [1, 2, 3 :: real] \<and> (0 :: real) \<notin> set [1, 2, 3]) \<and>
   plotRound_in np_default exact plot0 [1, 2, 3] =
     plotRound_in (np_default\<lparr>on_divide := Some FloatingPointError\<rparr>) exact
       (plot0\<lparr>x_index := 5\<rparr>) [1, 2, 3] \<and>
   plotRound_in (np_default\<lparr>on_divide := Some FloatingPointError\<rparr>) exact
       (plot0\<lparr>x_index := 5\<rparr>) [1, 2, 3] = Inr [1, 2, 3] \<and>
   on_divide np_default = on_divide (np_default\<lparr>on_invalid := Some FloatingPointError\<rparr>) \<and>
   plotRound_in np_default exact plot0 [0] =
     plotRound_in (np_default\<lparr>on_invalid := Some FloatingPointError\<rparr>) exact plot0 [0]"
proof -
  let ?raising = "np_default\<lparr>on_divide := Some FloatingPointError\<rparr>"
  let ?other = "np_default\<lparr>on_invalid := Some FloatingPointError\<rparr>"
  have a: "[1, 2, 3] = [1, 2, 3 :: real]" "(0 :: real) \<notin> set [1, 2, 3]" by simp_all
  have same: "plotRound_in np_default exact plot0 [1, 2, 3] =
      plotRound_in ?raising exact (plot0\<lparr>x_index := 5\<rparr>) [1, 2, 3]"
    using plotRound_deterministic [of "[1, 2, 3]" "[1, 2, 3]" np_default ?raising exact plot0
        "plot0\<lparr>x_index := 5\<rparr>"]
    by simp
  moreover have "plotRound_in np_default exact plot0 [1, 2, 3] = Inr [1, 2, 3]"
    by (simp add: plotRound_in_def run_123)
  ultimately have res: "plotRound_in ?raising exact (plot0\<lparr>x_index := 5\<rparr>) [1, 2, 3] =
      Inr [1, 2, 3]"
    by simp
  have b: "on_divide np_default = on_divide ?other" by simp
  have zero: "plotRound_in np_default exact plot0 [0] = plotRound_in ?other exact plot0 [0]"
    using plotRound_deterministic [of "[0]" "[0]" np_default ?other exact plot0 plot0]
    by simp
  from a same res b zero show ?thesis by blast
qed

text \<open>
  C8: for the input \<open>[1.0, 2.0, 3.0]\<close> the first pass, at \<^verbatim>\<open>digits = 0\<close>,
  already succeeds, and \<^verbatim>\<open>_plotRound\<close> returns exactly \<open>[1.0, 2.0, 3.0]\<close>.
\<close>

theorem plotRound_example_123:
  "plotRound_run np_default fp [1, 2, 3] = Inr (0, [1, 2, 3]) \<and>
   plotRound fp self [1, 2, 3] = Inr [1, 2, 3]"
  by (simp add: run_123 plotRound_def plotRound_in_def)

text \<open>
  C9: for an input whose values are \<open>0.0\<close>, \<open>100.0\<close> and \<open>0.0001\<close>, in any
  order, \<^verbatim>\<open>_plotRound\<close> raises nothing and returns the three distinct values
  \<open>[0.0, 0.0001, 100.0]\<close>.
\<close>

theorem plotRound_zero_mix:
  assumes "set values = {0, 100, 1 / 10000}"
  shows "\<exists>out. plotRound fp self values = Inr out \<and> out = [0, 1 / 10000, 100] \<and>
    length out = 3 \<and> distinct out"
proof -
  from assms have "values \<noteq> []" by auto
  from run_first_pass [OF this, of fp]
  have "plotRound_run np_default fp values = Inr (0, [0, 1 / 10000, 100])"
    by (simp add: inVal_zero_mix [OF assms] pass0_zero_mix)
  then have "plotRound fp self values = Inr [0, 1 / 10000, 100]"
    by (rule plotRound_of_run)
  then show ?thesis by simp
qed

theorem plotRound_zero_mix_witness:
  "set [0, 100, 1 / 10000] = {0, 100, 1 / 10000 :: real} \<and>
   plotRound exact plot0 [0, 100, 1 / 10000] = Inr [0, 1 / 10000, 100]"
proof -
  have s: "set [0, 100, 1 / 10000] = {0, 100, 1 / 10000 :: real}" by simp
  from plotRound_zero_mix [OF s, of exact plot0] s show ?thesis by blast
qed

section \<open>The claim about \<^verbatim>\<open>calc_isolines\<close>\<close>

text \<open>
  C10: \<^verbatim>\<open>calc_isolines\<close> checks its range arguments itself. It raises
  \<^verbatim>\<open>ValueError\<close> when \<^verbatim>\<open>iso_range\<close> is \<^verbatim>\<open>None\<close>, when it has one
  element and \<^verbatim>\<open>num\<close> is not 1, and when it has two elements and \<^verbatim>\<open>num\<close> is
  \<^verbatim>\<open>None\<close>; the plot, its isolines included, is then as it was before the call.
\<close>

theorem calc_isolines_range_checks:
  assumes "iso_range = None \<or>
    (\<exists>r. iso_range = Some r \<and> length r = 1 \<and> num \<noteq> Some 1) \<or>
    (\<exists>r. iso_range = Some r \<and> length r = 2 \<and> num = None)"
  shows "calc_isolines env self iso_type iso_range num rounding points = (Some ValueError, self)"
proof -
  from assms have "range_checks iso_range num = Inl ValueError"
    by (auto simp add: range_checks_def)
  then show ?thesis by (simp add: calc_isolines_def)
qed

theorem calc_isolines_range_checks_witness:
  "(\<forall>env. calc_isolines env plot0 (Index 3) None (Some 15) False 200 = (Some ValueError, plot0)) \<and>
   (\<forall>env. calc_isolines env plot0 All (Some [1]) (Some 15) True 200 = (Some ValueError, plot0)) \<and>
   (\<forall>env. calc_isolines env plot0 (Index 3) (Some [1]) None True 200 = (Some ValueError, plot0)) \<and>
   (\<forall>env. calc_isolines env plot0 (Index 3) (Some [0, 1]) None False 200 = (Some ValueError, plot0))"
proof -
  have a: "calc_isolines env plot0 (Index 3) None (Some 15) False 200 = (Some ValueError, plot0)" for env
    by (rule calc_isolines_range_checks) simp
  have b: "calc_isolines env plot0 All (Some [1]) (Some 15) True 200 = (Some ValueError, plot0)" for env
    by (rule calc_isolines_range_checks) simp
  have c: "calc_isolines env plot0 (Index 3) (Some [1]) None True 200 = (Some ValueError, plot0)" for env
    by (rule calc_isolines_range_checks) simp
  have d: "calc_isolines env plot0 (Index 3) (Some [0, 1]) None False 200 = (Some ValueError, plot0)" for env
    by (rule calc_isolines_range_checks) simp
  from a b c d show ?thesis by blast
qed

end
